theory Spec2Isabelle
  imports Complex_Main
begin

section \<open>Properties and the generic variant\<close>

text \<open>
  The embedding follows \<^verbatim>\<open>property_value_conversion.cpp\<close> (the second unit of
  \<^verbatim>\<open>src/base/property_builtins.cpp\<close>) and \<^verbatim>\<open>src/base/settings.cpp\<close>.
  \<^verbatim>\<open>QByteArray\<close>, \<^verbatim>\<open>QString\<close> and \<^verbatim>\<open>std::string\<close> are all \<open>string\<close>; the
  conversions between them (\<^verbatim>\<open>fromUtf8\<close>, \<^verbatim>\<open>toStdString\<close>) are the identity.
  A \<^verbatim>\<open>double\<close> is a \<open>real\<close>: nothing proved here depends on rounding. An \<^verbatim>\<open>int\<close> is an
  \<open>int\<close>: the code does no arithmetic on property values.
\<close>

text \<open>
  Modelled from the spec: \<^verbatim>\<open>TextId\<close> and the macro \<^verbatim>\<open>MAYO_TEXT_ID\<close> (text_id.h) are not
  in the sources. An identifier is a namespace with a key; the sources read the field
  \<^verbatim>\<open>key\<close>. The macro builds the identifier of its two arguments.
\<close>

record TextId =
  trContext :: string
  key :: string

definition MAYO_TEXT_ID :: "string \<Rightarrow> string \<Rightarrow> TextId" where
  "MAYO_TEXT_ID context_name key_name = \<lparr>trContext = context_name, key = key_name\<rparr>"

text \<open>
  Modelled from the spec: the declaration of \<^verbatim>\<open>Unit\<close> (unit.h) is not in the sources.
  The spec names the dimensions length, angle, mass, time and none; \<open>UnitNone\<close> is
  \<^verbatim>\<open>Unit::None\<close>.
\<close>

datatype Unit = UnitNone | Length | Angle | Mass | Time

text \<open>\<^verbatim>\<open>UnitSystem::TranslateResult\<close>; \<open>strUnit\<close> is a \<^verbatim>\<open>const char*\<close>, null is \<open>None\<close>.\<close>

record TranslateResult =
  tr_value :: real
  tr_factor :: real
  tr_strUnit :: "string option"

text \<open>
  Modelled from the spec: \<^verbatim>\<open>Enumeration\<close> (enumeration.h) is not in the sources. It is
  the injected map between symbolic names and integer values; \<open>findItem\<close> looks a
  name up and gives the null pointer (\<open>None\<close>) when the name is not registered.
\<close>

record Item =
  item_value :: int
  item_name :: string

type_synonym Enumeration = "Item list"

definition findItem :: "Enumeration \<Rightarrow> string \<Rightarrow> Item option" where
  "findItem enumeration nm = find (\<lambda>it. item_name it = nm) enumeration"

text \<open>
  Modelled from the spec: \<^verbatim>\<open>PropertyEnumeration::name()\<close> is not in the sources; it is
  the symbolic name of the stored value.
\<close>

definition findName :: "Enumeration \<Rightarrow> int \<Rightarrow> string" where
  "findName enumeration v =
     (case find (\<lambda>it. item_value it = v) enumeration of
        None \<Rightarrow> []
      | Some it \<Rightarrow> item_name it)"

datatype CheckState = Unchecked | PartiallyChecked | Checked

type_synonym QDateTime = int
type_synonym gp_Pnt = "real \<times> real \<times> real"
type_synonym gp_Trsf = "real list"
type_synonym Quantity_Color = "real \<times> real \<times> real"

text \<open>
  Modelled from the spec: the property classes (property.h, property_builtins.h,
  property_enumeration.h) are not in the sources. A property has a name and owns exactly
  one typed value. \<open>PropertyData\<close> is the dynamic type of a property with the value it
  owns: the kinds are those of the \<^verbatim>\<open>TypeName\<close> table of property_builtins.cpp, with
  \<^verbatim>\<open>PropertyEnumeration\<close> (its enumeration and the integer it stores) and
  \<^verbatim>\<open>BasePropertyQuantity\<close> (its unit and the value in that unit); \<open>PropertyOther\<close> is
  any other kind, by its type name. The converter tells the kinds apart by type name, so
  no property is of two kinds.
\<close>

datatype PropertyData =
    PropertyBool bool
  | PropertyInt int
  | PropertyDouble real
  | PropertyCheckState CheckState
  | PropertyQByteArray string
  | PropertyQString string
  | PropertyQStringList "string list"
  | PropertyQDateTime QDateTime
  | PropertyOccPnt gp_Pnt
  | PropertyOccTrsf gp_Trsf
  | PropertyOccColor Quantity_Color
  | PropertyEnumeration Enumeration int
  | BasePropertyQuantity Unit real
  | PropertyOther string

record Property =
  prop_name :: TextId
  prop_data :: PropertyData

text \<open>The shapes of \<^verbatim>\<open>QVariant\<close> that \<open>toVariant\<close> produces; \<open>Invalid\<close> is \<^verbatim>\<open>QVariant()\<close>.\<close>

datatype QVariant =
    Invalid
  | QBool bool
  | QInt int
  | QDouble real
  | QByteArray string
  | QString string
  | QStringList "string list"
  | QDateTime QDateTime

text \<open>
  What the converter calls and the sources do not hold, taken as parameters: the
  conversions of Qt's \<^verbatim>\<open>QVariant\<close>, \<^verbatim>\<open>TKernelUtils::colorFromHex\<close> (the colour, or
  \<open>None\<close> for its \<^verbatim>\<open>false\<close>) and \<^verbatim>\<open>colorToHex\<close>, \<^verbatim>\<open>UnitSystem::parseQuantity\<close> (its
  result with the unit it writes through the pointer), \<^verbatim>\<open>UnitSystem::translate\<close> for
  the SI schema, \<^verbatim>\<open>std::to_chars\<close> in general format with a precision (\<open>None\<close> is an
  error code), the converter's member \<^verbatim>\<open>m_doubleToStringPrecision\<close>, and the
  component-specific domain constraint of \<^verbatim>\<open>setValue\<close>.
\<close>

record Env =
  toBool :: "QVariant \<Rightarrow> bool"
  toInt :: "QVariant \<Rightarrow> int"
  toDouble :: "QVariant \<Rightarrow> real"
  toByteArray :: "QVariant \<Rightarrow> string"
  toString :: "QVariant \<Rightarrow> string"
  toStringList :: "QVariant \<Rightarrow> string list"
  toDateTime :: "QVariant \<Rightarrow> QDateTime"
  colorFromHex :: "string \<Rightarrow> Quantity_Color option"
  colorToHex :: "Quantity_Color \<Rightarrow> string"
  parseQuantity :: "string \<Rightarrow> TranslateResult \<times> Unit"
  translate :: "real \<Rightarrow> Unit \<Rightarrow> TranslateResult"
  to_chars :: "real \<Rightarrow> int \<Rightarrow> string option"
  m_doubleToStringPrecision :: int
  accepts :: "Property \<Rightarrow> PropertyData \<Rightarrow> bool"

text \<open>
  Modelled from the spec: \<^verbatim>\<open>setValue\<close> and \<^verbatim>\<open>setQuantityValue\<close> (property.h,
  property_builtins.h) are not in the sources. The spec: \<^verbatim>\<open>setValue(T) -> bool\<close> fails
  and returns false if the value violates a component-specific domain constraint;
  otherwise the property owns the new value.
\<close>

definition setValue :: "Env \<Rightarrow> Property \<Rightarrow> PropertyData \<Rightarrow> bool \<times> Property" where
  "setValue env prop v =
     (if accepts env prop v then (True, prop\<lparr>prop_data := v\<rparr>) else (False, prop))"

text \<open>\<^verbatim>\<open>qFuzzyIsNull(double)\<close> of Qt.\<close>

definition qFuzzyIsNull :: "real \<Rightarrow> bool" where
  "qFuzzyIsNull d = (\<bar>d\<bar> \<le> 1 / 10 ^ 12)"

subsection \<open>fromVariant\<close>

text \<open>
  A \<^verbatim>\<open>Property*\<close> is an address into a store of properties, \<open>None\<close> the null
  pointer. The registry never owns a property: its creator keeps it alive, so every
  address holds one. The result of \<open>fromVariant\<close> is the returned flag, the store after
  the call and the lines sent to \<^verbatim>\<open>qCritical()\<close>. \<open>fnError\<close> is the line the lambda
  of that name logs; the lambda returns false, which each branch using it returns.
\<close>

type_synonym heap = "nat \<Rightarrow> Property"

type_synonym FromVariantResult = "bool \<times> heap \<times> string list"

definition quoted :: "string \<Rightarrow> string" where
  "quoted s = [CHR 0x27] @ s @ [CHR 0x27]"

definition fnError :: "Property \<Rightarrow> string \<Rightarrow> string" where
  "fnError prop txt = ''[property '' @ quoted (key (prop_name prop)) @ ''] '' @ txt"

text \<open>\<^verbatim>\<open>return ptr<T>(prop)->setValue(v)\<close>: the setter works on the property at \<open>a\<close>.\<close>

definition returnSetValue :: "heap \<Rightarrow> nat \<Rightarrow> bool \<times> Property \<Rightarrow> FromVariantResult" where
  "returnSetValue h a r = (fst r, h(a := snd r), [])"

definition fromVariant :: "Env \<Rightarrow> heap \<Rightarrow> nat option \<Rightarrow> QVariant \<Rightarrow> FromVariantResult" where
  "fromVariant env h prop variant =
     (case prop of
        None \<Rightarrow> (False, h, [])
      | Some a \<Rightarrow>
          (let p = h a in
           case prop_data p of
             PropertyBool _ \<Rightarrow>
               returnSetValue h a (setValue env p (PropertyBool (toBool env variant)))
           | PropertyInt _ \<Rightarrow>
               returnSetValue h a (setValue env p (PropertyInt (toInt env variant)))
           | PropertyDouble _ \<Rightarrow>
               returnSetValue h a (setValue env p (PropertyDouble (toDouble env variant)))
           | PropertyCheckState _ \<Rightarrow>
               (False, h, [fnError p ''fromVariant() not yet implemented for PropertyCheckState''])
           | PropertyQByteArray _ \<Rightarrow>
               returnSetValue h a (setValue env p (PropertyQByteArray (toByteArray env variant)))
           | PropertyQString _ \<Rightarrow>
               returnSetValue h a (setValue env p (PropertyQString (toString env variant)))
           | PropertyQStringList _ \<Rightarrow>
               returnSetValue h a (setValue env p (PropertyQStringList (toStringList env variant)))
           | PropertyQDateTime _ \<Rightarrow>
               returnSetValue h a (setValue env p (PropertyQDateTime (toDateTime env variant)))
           | PropertyOccPnt _ \<Rightarrow>
               (False, h, [fnError p ''fromVariant() not yet implemented for PropertyOccPnt''])
           | PropertyOccTrsf _ \<Rightarrow>
               (False, h, [fnError p ''fromVariant() not yet implemented for PropertyOccTrsf''])
           | PropertyOccColor _ \<Rightarrow>
               (case colorFromHex env (toString env variant) of
                  None \<Rightarrow>
                    (False, h,
                     [fnError p (''Not hexadecimal format '' @ quoted (toString env variant))])
                | Some color \<Rightarrow> returnSetValue h a (setValue env p (PropertyOccColor color)))
           | PropertyEnumeration enumeration _ \<Rightarrow>
               (case findItem enumeration (toByteArray env variant) of
                  None \<Rightarrow>
                    (False, h,
                     [fnError p (''fromVariant() found no enumeration item for ''
                                   @ quoted (toString env variant))])
                | Some ptrItem \<Rightarrow>
                    returnSetValue h a
                      (setValue env p (PropertyEnumeration enumeration (item_value ptrItem))))
           | BasePropertyQuantity quantityUnit _ \<Rightarrow>
               (let (trRes, unit) = parseQuantity env (toString env variant) in
                  if tr_strUnit trRes = None \<or> qFuzzyIsNull (tr_factor trRes) then
                    (False, h,
                     [fnError p (''fromVariant() failed to parse quantity string ''
                                   @ quoted (toString env variant))])
                  else if unit \<noteq> UnitNone \<and> unit \<noteq> quantityUnit then
                    (False, h,
                     [fnError p (''fromVariant() unit mismatch with quantity string ''
                                   @ quoted (toString env variant))])
                  else
                    returnSetValue h a
                      (setValue env p
                         (BasePropertyQuantity quantityUnit (tr_value trRes * tr_factor trRes))))
           | PropertyOther _ \<Rightarrow> (False, h, [])))"

subsection \<open>toVariant\<close>

text \<open>
  The result is the variant with the lines sent to \<^verbatim>\<open>qCritical()\<close>; every kind without a
  handler falls through to \<^verbatim>\<open>return QVariant()\<close>. The quantity branch is the one under
  \<^verbatim>\<open>__cpp_lib_to_chars\<close>. Building a \<^verbatim>\<open>std::string_view\<close> from a null \<^verbatim>\<open>strUnit\<close>
  is undefined behaviour, an error of the model.
\<close>

datatype error = ContractViolation | OutOfRange | NullDereference

definition toVariant :: "Env \<Rightarrow> Property \<Rightarrow> error + QVariant \<times> string list" where
  "toVariant env prop =
     (case prop_data prop of
        PropertyBool v \<Rightarrow> Inr (QBool v, [])
      | PropertyInt v \<Rightarrow> Inr (QInt v, [])
      | PropertyDouble v \<Rightarrow> Inr (QDouble v, [])
      | PropertyCheckState _ \<Rightarrow>
          Inr (Invalid, [''toVariant() not yet implemented for PropertyCheckState''])
      | PropertyQByteArray v \<Rightarrow> Inr (QByteArray v, [])
      | PropertyQString v \<Rightarrow> Inr (QString v, [])
      | PropertyQStringList v \<Rightarrow> Inr (QStringList v, [])
      | PropertyQDateTime v \<Rightarrow> Inr (QDateTime v, [])
      | PropertyOccPnt _ \<Rightarrow>
          Inr (Invalid, [''toVariant() not yet implemented for PropertyOccPnt''])
      | PropertyOccTrsf _ \<Rightarrow>
          Inr (Invalid, [''toVariant() not yet implemented for PropertyOccTrsf''])
      | PropertyOccColor color \<Rightarrow> Inr (QString (colorToHex env color), [])
      | PropertyEnumeration enumeration v \<Rightarrow> Inr (QString (findName enumeration v), [])
      | BasePropertyQuantity quantityUnit quantityValue \<Rightarrow>
          (let trRes = translate env quantityValue quantityUnit in
           case tr_strUnit trRes of
             None \<Rightarrow> Inl NullDereference
           | Some strUnit \<Rightarrow>
               (case to_chars env (tr_value trRes * tr_factor trRes)
                       (m_doubleToStringPrecision env) of
                  Some buff \<Rightarrow> Inr (QString (buff @ strUnit), [])
                | None \<Rightarrow>
                    Inr (Invalid,
                         [''toVariant(PropertyQuantity) failed with error: ''
                            @ quoted ''value_too_large''])))
      | PropertyOther _ \<Rightarrow> Inr (Invalid, []))"

section \<open>The settings registry\<close>

text \<open>
  The records of the tree are those of settings.cpp. \<^verbatim>\<open>GroupIndex\<close>, \<^verbatim>\<open>SectionIndex\<close> and
  \<^verbatim>\<open>SettingIndex\<close> (settings.h, not in the sources) are read off their uses: each wraps
  an \<^verbatim>\<open>int\<close>, read by \<^verbatim>\<open>get()\<close>, with the index of the parent. \<^verbatim>\<open>std::vector::at\<close>
  throws \<^verbatim>\<open>std::out_of_range\<close>, and \<^verbatim>\<open>Expects\<close> ends the program: both are errors of the
  model. The vectors are taken to hold fewer than \<open>2 ^ 31\<close> elements, so no conversion
  of a size to \<^verbatim>\<open>int\<close> overflows. A reset function is a callback the registry only
  stores and calls; \<open>'f\<close> is the type of callbacks.
\<close>

record Settings_Setting =
  property :: "nat option"

record Settings_Section =
  sec_identifier :: TextId
  sec_overridenTitle :: string
  isDefault :: bool
  vecSetting :: "Settings_Setting list"

record Settings_Group =
  grp_identifier :: TextId
  grp_overridenTitle :: string
  vecSection :: "Settings_Section list"

type_synonym GroupIndex = int

record SectionIndex =
  si_group :: GroupIndex
  si_get :: int

record SettingIndex =
  sti_section :: SectionIndex
  sti_get :: int

record 'f SectionResetFunction =
  sectionId :: SectionIndex
  fnReset :: 'f

record 'f Private =
  m_vecGroup :: "Settings_Group list"
  m_vecSectionResetFn :: "'f SectionResetFunction list"

text \<open>\<^verbatim>\<open>QByteArray::simplified\<close> of Qt: no spacing at either end, one space between words.\<close>

definition ascii_isspace :: "char \<Rightarrow> bool" where
  "ascii_isspace c = (c \<in> set [CHR 0x20, CHR 0x09, CHR 0x0A, CHR 0x0B, CHR 0x0C, CHR 0x0D])"

fun simplifiedFrom :: "string \<Rightarrow> bool \<Rightarrow> string \<Rightarrow> string" where
  "simplifiedFrom out pending [] = out"
| "simplifiedFrom out pending (c # cs) =
     (if ascii_isspace c then simplifiedFrom out (out \<noteq> []) cs
      else simplifiedFrom (out @ (if pending then [CHR 0x20] else []) @ [c]) False cs)"

definition simplified :: "string \<Rightarrow> string" where
  "simplified s = simplifiedFrom [] False s"

definition isValidIdentifier :: "string \<Rightarrow> bool" where
  "isValidIdentifier identifier = (identifier \<noteq> [] \<and> simplified identifier \<noteq> [])"

text \<open>A value-initialised \<^verbatim>\<open>TextId\<close>, \<^verbatim>\<open>Settings_Section\<close> and \<^verbatim>\<open>Settings_Group\<close> (\<^verbatim>\<open>{}\<close>).\<close>

definition emptyTextId :: TextId where
  "emptyTextId = \<lparr>trContext = [], key = []\<rparr>"

definition emptySection :: Settings_Section where
  "emptySection =
     \<lparr>sec_identifier = emptyTextId, sec_overridenTitle = [], isDefault = False, vecSetting = []\<rparr>"

definition emptyGroup :: Settings_Group where
  "emptyGroup = \<lparr>grp_identifier = emptyTextId, grp_overridenTitle = [], vecSection = []\<rparr>"

definition vec_at :: "'a list \<Rightarrow> int \<Rightarrow> error + 'a" where
  "vec_at xs i = (if 0 \<le> i \<and> i < int (length xs) then Inr (xs ! nat i) else Inl OutOfRange)"

definition group :: "'f Private \<Rightarrow> GroupIndex \<Rightarrow> error + Settings_Group" where
  "group d index = vec_at (m_vecGroup d) index"

definition section_at :: "'f Private \<Rightarrow> SectionIndex \<Rightarrow> error + Settings_Section" where
  "section_at d index =
     (case group d (si_group index) of
        Inl e \<Rightarrow> Inl e
      | Inr g \<Rightarrow> vec_at (vecSection g) (si_get index))"

text \<open>
  Writing through the references \<^verbatim>\<open>d->group(index)\<close> and \<^verbatim>\<open>d->section(index)\<close>: the
  element at a valid index is replaced by its image under \<open>f\<close>.
\<close>

definition modifyGroup ::
  "'f Private \<Rightarrow> GroupIndex \<Rightarrow> (Settings_Group \<Rightarrow> Settings_Group) \<Rightarrow> error + 'f Private" where
  "modifyGroup d index f =
     (case group d index of
        Inl e \<Rightarrow> Inl e
      | Inr g \<Rightarrow> Inr (d\<lparr>m_vecGroup := (m_vecGroup d)[nat index := f g]\<rparr>))"

definition modifySection ::
  "'f Private \<Rightarrow> SectionIndex \<Rightarrow> (Settings_Section \<Rightarrow> Settings_Section) \<Rightarrow> error + 'f Private" where
  "modifySection d index f =
     (case section_at d index of
        Inl e \<Rightarrow> Inl e
      | Inr s \<Rightarrow>
          modifyGroup d (si_group index)
            (\<lambda>g. g\<lparr>vecSection := (vecSection g)[nat (si_get index) := f s]\<rparr>))"

definition sectionPath :: "Settings_Group \<Rightarrow> Settings_Section \<Rightarrow> string" where
  "sectionPath g s = key (grp_identifier g) @ ''/'' @ key (sec_identifier s)"

subsection \<open>Groups, sections and settings\<close>

text \<open>The loop of \<open>addGroup\<close>: the position of the first group with the identifier.\<close>

fun findGroup :: "Settings_Group list \<Rightarrow> string \<Rightarrow> int option" where
  "findGroup [] identifier = None"
| "findGroup (g # gs) identifier =
     (if key (grp_identifier g) = identifier then Some 0
      else map_option (\<lambda>i. i + 1) (findGroup gs identifier))"

definition addGroup :: "'f Private \<Rightarrow> string \<Rightarrow> error + 'f Private \<times> GroupIndex" where
  "addGroup d identifier =
     (if \<not> isValidIdentifier identifier then Inl ContractViolation
      else
        case findGroup (m_vecGroup d) identifier of
          Some index \<Rightarrow> Inr (d, index)
        | None \<Rightarrow>
            (let defaultSection = emptySection\<lparr>isDefault := True\<rparr>;
                 g = emptyGroup\<lparr>grp_identifier := emptyTextId\<lparr>key := identifier\<rparr>,
                                vecSection := [defaultSection]\<rparr>;
                 vec = m_vecGroup d @ [g]
             in Inr (d\<lparr>m_vecGroup := vec\<rparr>, int (length vec) - 1)))"

definition addGroup_TextId :: "'f Private \<Rightarrow> TextId \<Rightarrow> error + 'f Private \<times> GroupIndex" where
  "addGroup_TextId d identifier =
     (case addGroup d (key identifier) of
        Inl e \<Rightarrow> Inl e
      | Inr (d1, index) \<Rightarrow>
          (case modifyGroup d1 index (\<lambda>g. g\<lparr>grp_identifier := identifier\<rparr>) of
             Inl e \<Rightarrow> Inl e
           | Inr d2 \<Rightarrow> Inr (d2, index)))"

definition setGroupTitle :: "'f Private \<Rightarrow> GroupIndex \<Rightarrow> string \<Rightarrow> error + 'f Private" where
  "setGroupTitle d index title = modifyGroup d index (\<lambda>g. g\<lparr>grp_overridenTitle := title\<rparr>)"

definition addSection ::
  "'f Private \<Rightarrow> GroupIndex \<Rightarrow> string \<Rightarrow> error + 'f Private \<times> SectionIndex" where
  "addSection d index identifier =
     (if \<not> isValidIdentifier identifier then Inl ContractViolation
      else
        case group d index of
          Inl e \<Rightarrow> Inl e
        | Inr g \<Rightarrow>
            (let s = emptySection\<lparr>sec_identifier := emptyTextId\<lparr>key := identifier\<rparr>\<rparr>;
                 vec = vecSection g @ [s]
             in Inr (d\<lparr>m_vecGroup := (m_vecGroup d)[nat index := g\<lparr>vecSection := vec\<rparr>]\<rparr>,
                     \<lparr>si_group = index, si_get = int (length vec) - 1\<rparr>)))"

definition addSection_TextId ::
  "'f Private \<Rightarrow> GroupIndex \<Rightarrow> TextId \<Rightarrow> error + 'f Private \<times> SectionIndex" where
  "addSection_TextId d index identifier =
     (case addSection d index (key identifier) of
        Inl e \<Rightarrow> Inl e
      | Inr (d1, sectionIndex) \<Rightarrow>
          (case modifySection d1 sectionIndex (\<lambda>s. s\<lparr>sec_identifier := identifier\<rparr>) of
             Inl e \<Rightarrow> Inl e
           | Inr d2 \<Rightarrow> Inr (d2, sectionIndex)))"

definition setSectionTitle ::
  "'f Private \<Rightarrow> SectionIndex \<Rightarrow> string \<Rightarrow> error + 'f Private" where
  "setSectionTitle d index title =
     modifySection d index (\<lambda>s. s\<lparr>sec_overridenTitle := title\<rparr>)"

text \<open>\<open>addSetting(Property*, SectionIndex)\<close>.\<close>

definition addSetting ::
  "'f Private \<Rightarrow> nat option \<Rightarrow> SectionIndex \<Rightarrow> error + 'f Private \<times> SettingIndex" where
  "addSetting d prop index =
     (case section_at d index of
        Inl e \<Rightarrow> Inl e
      | Inr s \<Rightarrow>
          (let vec = vecSetting s @ [\<lparr>property = prop\<rparr>] in
           case modifySection d index (\<lambda>s. s\<lparr>vecSetting := vec\<rparr>) of
             Inl e \<Rightarrow> Inl e
           | Inr d1 \<Rightarrow> Inr (d1, \<lparr>sti_section = index, sti_get = int (length vec) - 1\<rparr>)))"

text \<open>
  \<open>addSetting(Property*, GroupIndex)\<close>. In each branch \<^verbatim>\<open>sectionDefault\<close> points at the
  section whose position \<open>k\<close> is \<^verbatim>\<open>sectionDefault - &group.vecSection.front()\<close>; the tail
  marks it default and adds the setting there. In the last branch the call
  \<^verbatim>\<open>group.vecSection.insert(group.vecSection.begin(), {})\<close> takes the overload of
  \<^verbatim>\<open>std::vector::insert\<close> for an initializer list (for empty braces it is the exact
  match, before the overloads for one element): it inserts the elements of the empty
  list, that is none, and \<^verbatim>\<open>sectionDefault\<close> points at the section that was first.
\<close>

definition addSetting_default ::
  "'f Private \<Rightarrow> nat option \<Rightarrow> GroupIndex \<Rightarrow> int \<Rightarrow> error + 'f Private \<times> SettingIndex" where
  "addSetting_default d prop groupId k =
     (case modifySection d \<lparr>si_group = groupId, si_get = k\<rparr> (\<lambda>s. s\<lparr>isDefault := True\<rparr>) of
        Inl e \<Rightarrow> Inl e
      | Inr d1 \<Rightarrow> addSetting d1 prop \<lparr>si_group = groupId, si_get = k\<rparr>)"

definition addSetting_group ::
  "'f Private \<Rightarrow> nat option \<Rightarrow> GroupIndex \<Rightarrow> error + 'f Private \<times> SettingIndex" where
  "addSetting_group d prop groupId =
     (case group d groupId of
        Inl e \<Rightarrow> Inl e
      | Inr g \<Rightarrow>
          if vecSection g = [] then
            (case addSection_TextId d groupId (MAYO_TEXT_ID ''Mayo::Settings'' ''DEFAULT'') of
               Inl e \<Rightarrow> Inl e
             | Inr (d1, sectionIdx) \<Rightarrow> addSetting_default d1 prop groupId (si_get sectionIdx))
          else if isDefault (hd (vecSection g)) then addSetting_default d prop groupId 0
          else
            (case modifyGroup d groupId (\<lambda>g. g\<lparr>vecSection := [] @ vecSection g\<rparr>) of
               Inl e \<Rightarrow> Inl e
             | Inr d1 \<Rightarrow> addSetting_default d1 prop groupId 0))"

subsection \<open>Loading and saving\<close>

text \<open>
  The store is the key-value collaborator \<^verbatim>\<open>QSettings\<close>: \<^verbatim>\<open>contains\<close> and \<^verbatim>\<open>value\<close>
  read the map, \<^verbatim>\<open>setValue\<close> updates it, under the key the registry passes; what the
  store does with a key or a variant is outside the model. An \<^verbatim>\<open>ExcludePropertyPredicate\<close> is a
  \<^verbatim>\<open>std::function\<close> over a reference to the property, \<open>None\<close> when empty; it sees the
  object (its address) and its state. Dereferencing a null \<^verbatim>\<open>Property*\<close> is undefined
  behaviour, an error of the model.
\<close>

type_synonym QSettings = "string \<rightharpoonup> QVariant"

type_synonym ExcludePropertyPredicate = "(nat \<Rightarrow> Property \<Rightarrow> bool) option"

text \<open>The negation of \<^verbatim>\<open>!fnExclude || !fnExclude(*prop)\<close>.\<close>

definition excluded :: "ExcludePropertyPredicate \<Rightarrow> heap \<Rightarrow> nat option \<Rightarrow> error + bool" where
  "excluded fnExclude h prop =
     (case fnExclude of
        None \<Rightarrow> Inr False
      | Some f \<Rightarrow>
          (case prop of
             None \<Rightarrow> Inl NullDereference
           | Some a \<Rightarrow> Inr (f a (h a))))"

text \<open>\<^verbatim>\<open>Settings::Private::loadPropertyFrom\<close>, on the store of properties and the log.\<close>

definition loadPropertyFrom ::
  "Env \<Rightarrow> QSettings \<Rightarrow> string \<Rightarrow> nat option \<Rightarrow> heap \<times> string list \<Rightarrow> heap \<times> string list" where
  "loadPropertyFrom env source secPath prop st =
     (case prop of
        None \<Rightarrow> st
      | Some a \<Rightarrow>
          (let propertyKey = key (prop_name (fst st a));
               settingPath = secPath @ ''/'' @ propertyKey
           in case source settingPath of
                None \<Rightarrow> st
              | Some v \<Rightarrow>
                  (case fromVariant env (fst st) prop v of
                     (ok, h1, msgs) \<Rightarrow> (h1, snd st @ msgs))))"

text \<open>The three nested loops of \<open>loadFrom\<close>, innermost first.\<close>

fun loadSettings ::
  "Env \<Rightarrow> QSettings \<Rightarrow> ExcludePropertyPredicate \<Rightarrow> string \<Rightarrow> Settings_Setting list
     \<Rightarrow> heap \<times> string list \<Rightarrow> error + heap \<times> string list" where
  "loadSettings env source fnExclude secPath [] st = Inr st"
| "loadSettings env source fnExclude secPath (setting # rest) st =
     (case excluded fnExclude (fst st) (property setting) of
        Inl e \<Rightarrow> Inl e
      | Inr ex \<Rightarrow>
          loadSettings env source fnExclude secPath rest
            (if ex then st else loadPropertyFrom env source secPath (property setting) st))"

fun loadSections ::
  "Env \<Rightarrow> QSettings \<Rightarrow> ExcludePropertyPredicate \<Rightarrow> Settings_Group \<Rightarrow> Settings_Section list
     \<Rightarrow> heap \<times> string list \<Rightarrow> error + heap \<times> string list" where
  "loadSections env source fnExclude g [] st = Inr st"
| "loadSections env source fnExclude g (s # rest) st =
     (case loadSettings env source fnExclude (sectionPath g s) (vecSetting s) st of
        Inl e \<Rightarrow> Inl e
      | Inr st1 \<Rightarrow> loadSections env source fnExclude g rest st1)"

fun loadGroups ::
  "Env \<Rightarrow> QSettings \<Rightarrow> ExcludePropertyPredicate \<Rightarrow> Settings_Group list
     \<Rightarrow> heap \<times> string list \<Rightarrow> error + heap \<times> string list" where
  "loadGroups env source fnExclude [] st = Inr st"
| "loadGroups env source fnExclude (g # rest) st =
     (case loadSections env source fnExclude g (vecSection g) st of
        Inl e \<Rightarrow> Inl e
      | Inr st1 \<Rightarrow> loadGroups env source fnExclude rest st1)"

definition loadFrom ::
  "'f Private \<Rightarrow> Env \<Rightarrow> QSettings \<Rightarrow> ExcludePropertyPredicate \<Rightarrow> heap
     \<Rightarrow> error + heap \<times> string list" where
  "loadFrom d env source fnExclude h = loadGroups env source fnExclude (m_vecGroup d) (h, [])"

text \<open>The body of the innermost loop of \<open>saveAs\<close>, on the target store and the log.\<close>

definition saveSetting ::
  "Env \<Rightarrow> heap \<Rightarrow> ExcludePropertyPredicate \<Rightarrow> string \<Rightarrow> Settings_Setting
     \<Rightarrow> QSettings \<times> string list \<Rightarrow> error + QSettings \<times> string list" where
  "saveSetting env h fnExclude secPath setting st =
     (let prop = property setting in
      case excluded fnExclude h prop of
        Inl e \<Rightarrow> Inl e
      | Inr ex \<Rightarrow>
          if ex then Inr st
          else
            (case prop of
               None \<Rightarrow> Inl NullDereference
             | Some a \<Rightarrow>
                 (let propKey = key (prop_name (h a));
                      settingPath = secPath @ ''/'' @ propKey
                  in case toVariant env (h a) of
                       Inl e \<Rightarrow> Inl e
                     | Inr (v, msgs) \<Rightarrow> Inr ((fst st)(settingPath \<mapsto> v), snd st @ msgs))))"

fun saveSettings ::
  "Env \<Rightarrow> heap \<Rightarrow> ExcludePropertyPredicate \<Rightarrow> string \<Rightarrow> Settings_Setting list
     \<Rightarrow> QSettings \<times> string list \<Rightarrow> error + QSettings \<times> string list" where
  "saveSettings env h fnExclude secPath [] st = Inr st"
| "saveSettings env h fnExclude secPath (setting # rest) st =
     (case saveSetting env h fnExclude secPath setting st of
        Inl e \<Rightarrow> Inl e
      | Inr st1 \<Rightarrow> saveSettings env h fnExclude secPath rest st1)"

fun saveSections ::
  "Env \<Rightarrow> heap \<Rightarrow> ExcludePropertyPredicate \<Rightarrow> Settings_Group \<Rightarrow> Settings_Section list
     \<Rightarrow> QSettings \<times> string list \<Rightarrow> error + QSettings \<times> string list" where
  "saveSections env h fnExclude g [] st = Inr st"
| "saveSections env h fnExclude g (s # rest) st =
     (case saveSettings env h fnExclude (sectionPath g s) (vecSetting s) st of
        Inl e \<Rightarrow> Inl e
      | Inr st1 \<Rightarrow> saveSections env h fnExclude g rest st1)"

fun saveGroups ::
  "Env \<Rightarrow> heap \<Rightarrow> ExcludePropertyPredicate \<Rightarrow> Settings_Group list
     \<Rightarrow> QSettings \<times> string list \<Rightarrow> error + QSettings \<times> string list" where
  "saveGroups env h fnExclude [] st = Inr st"
| "saveGroups env h fnExclude (g # rest) st =
     (case saveSections env h fnExclude g (vecSection g) st of
        Inl e \<Rightarrow> Inl e
      | Inr st1 \<Rightarrow> saveGroups env h fnExclude rest st1)"

text \<open>
  \<open>saveAs\<close>: the target is a \<^verbatim>\<open>QSettings*\<close>, \<open>None\<close> the null pointer. The result is the
  target after the call and the lines logged.
\<close>

definition saveAs ::
  "'f Private \<Rightarrow> Env \<Rightarrow> heap \<Rightarrow> ExcludePropertyPredicate \<Rightarrow> QSettings option
     \<Rightarrow> error + QSettings option \<times> string list" where
  "saveAs d env h fnExclude target =
     (case target of
        None \<Rightarrow> Inr (None, [])
      | Some t \<Rightarrow>
          (case saveGroups env h fnExclude (m_vecGroup d) (t, []) of
             Inl e \<Rightarrow> Inl e
           | Inr (t1, msgs) \<Rightarrow> Inr (Some t1, msgs)))"

subsection \<open>Reset functions\<close>

text \<open>
  A \<^verbatim>\<open>ResetFunction\<close> is a \<^verbatim>\<open>std::function\<close>, \<open>None\<close> when empty. The reset operations
  give the callbacks they invoke, in the order of the calls.
\<close>

definition addResetFunction :: "'f Private \<Rightarrow> SectionIndex \<Rightarrow> 'f option \<Rightarrow> 'f Private" where
  "addResetFunction d index f =
     (case f of
        None \<Rightarrow> d
      | Some fnc \<Rightarrow>
          d\<lparr>m_vecSectionResetFn :=
               m_vecSectionResetFn d @ [\<lparr>sectionId = index, fnReset = fnc\<rparr>]\<rparr>)"

definition addResetFunction_group :: "'f Private \<Rightarrow> GroupIndex \<Rightarrow> 'f option \<Rightarrow> 'f Private" where
  "addResetFunction_group d index f = addResetFunction d \<lparr>si_group = index, si_get = 0\<rparr> f"

fun resetLoop :: "(SectionIndex \<Rightarrow> bool) \<Rightarrow> 'f SectionResetFunction list \<Rightarrow> 'f list" where
  "resetLoop sel [] = []"
| "resetLoop sel (sectionResetFn # rest) =
     (if sel (sectionId sectionResetFn) then fnReset sectionResetFn # resetLoop sel rest
      else resetLoop sel rest)"

definition resetAll :: "'f Private \<Rightarrow> 'f list" where
  "resetAll d = resetLoop (\<lambda>_. True) (m_vecSectionResetFn d)"

definition resetGroup :: "'f Private \<Rightarrow> GroupIndex \<Rightarrow> 'f list" where
  "resetGroup d index = resetLoop (\<lambda>i. si_group i = index) (m_vecSectionResetFn d)"

definition resetSection :: "'f Private \<Rightarrow> SectionIndex \<Rightarrow> 'f list" where
  "resetSection d index = resetLoop (\<lambda>i. i = index) (m_vecSectionResetFn d)"

text \<open>\<^verbatim>\<open>Settings::isDefaultGroupSection\<close>.\<close>

definition isDefaultGroupSection :: "'f Private \<Rightarrow> SectionIndex \<Rightarrow> error + bool" where
  "isDefaultGroupSection d index =
     (case section_at d index of Inl e \<Rightarrow> Inl e | Inr s \<Rightarrow> Inr (isDefault s))"

text \<open>The state a \<^verbatim>\<open>Settings\<close> object starts in: both vectors are empty.\<close>

definition initPrivate :: "'f Private" where
  "initPrivate = \<lparr>m_vecGroup = [], m_vecSectionResetFn = []\<rparr>"

section \<open>Auxiliary notions\<close>

text \<open>The group \<open>addGroup\<close> appends for a new identifier, written out.\<close>

definition newGroup :: "string \<Rightarrow> Settings_Group" where
  "newGroup g = \<lparr>grp_identifier = \<lparr>trContext = [], key = g\<rparr>, grp_overridenTitle = [],
                 vecSection = [\<lparr>sec_identifier = \<lparr>trContext = [], key = []\<rparr>,
                                sec_overridenTitle = [], isDefault = True, vecSetting = []\<rparr>]\<rparr>"

text \<open>The section at position 0 of a group exists and is marked default.\<close>

definition sectionZeroDefault :: "Settings_Group \<Rightarrow> bool" where
  "sectionZeroDefault g = (case vecSection g of [] \<Rightarrow> False | s # _ \<Rightarrow> isDefault s)"

definition defaultFirst :: "'f Private \<Rightarrow> bool" where
  "defaultFirst d = list_all sectionZeroDefault (m_vecGroup d)"

text \<open>
  The section at position 0 of a group exists, is marked default and has the empty
  identifier key.
\<close>

definition unnamedDefault :: "Settings_Group \<Rightarrow> bool" where
  "unnamedDefault g =
     (case vecSection g of [] \<Rightarrow> False | s # _ \<Rightarrow> isDefault s \<and> key (sec_identifier s) = [])"

definition unnamedDefaultFirst :: "'f Private \<Rightarrow> bool" where
  "unnamedDefaultFirst d = list_all unnamedDefault (m_vecGroup d)"

text \<open>
  The member functions of \<^verbatim>\<open>Settings\<close> that write to the registry, as calls with their
  arguments, and a sequence of calls run from a registry: \<open>perform\<close> gives the registry
  after one call and drops the index the call returns, a call that fails ends the run with
  its error. The registries a program can build are those of \<open>run initPrivate\<close>.
\<close>

datatype 'f Call =
    AddGroupId TextId
  | AddGroup string
  | SetGroupTitle GroupIndex string
  | AddResetFunctionGroup GroupIndex "'f option"
  | AddResetFunction SectionIndex "'f option"
  | AddSectionId GroupIndex TextId
  | AddSection GroupIndex string
  | SetSectionTitle SectionIndex string
  | AddSettingGroup "nat option" GroupIndex
  | AddSetting "nat option" SectionIndex

definition registryAfter :: "error + 'f Private \<times> 'i \<Rightarrow> error + 'f Private" where
  "registryAfter r = (case r of Inl e \<Rightarrow> Inl e | Inr (d, i) \<Rightarrow> Inr d)"

fun perform :: "'f Private \<Rightarrow> 'f Call \<Rightarrow> error + 'f Private" where
  "perform d (AddGroupId identifier) = registryAfter (addGroup_TextId d identifier)"
| "perform d (AddGroup identifier) = registryAfter (addGroup d identifier)"
| "perform d (SetGroupTitle index title) = setGroupTitle d index title"
| "perform d (AddResetFunctionGroup index fn) = Inr (addResetFunction_group d index fn)"
| "perform d (AddResetFunction index fn) = Inr (addResetFunction d index fn)"
| "perform d (AddSectionId index identifier) = registryAfter (addSection_TextId d index identifier)"
| "perform d (AddSection index identifier) = registryAfter (addSection d index identifier)"
| "perform d (SetSectionTitle index title) = setSectionTitle d index title"
| "perform d (AddSettingGroup p groupId) = registryAfter (addSetting_group d p groupId)"
| "perform d (AddSetting p index) = registryAfter (addSetting d p index)"

fun run :: "'f Private \<Rightarrow> 'f Call list \<Rightarrow> error + 'f Private" where
  "run d [] = Inr d"
| "run d (c # cs) = (case perform d c of Inl e \<Rightarrow> Inl e | Inr d1 \<Rightarrow> run d1 cs)"

text \<open>
  A call that registers a reset function: by \<^verbatim>\<open>GroupIndex\<close> or by \<^verbatim>\<open>SectionIndex\<close>.
  \<open>boundGroup\<close> is the group the call names, \<open>boundSection\<close> the section the function
  is stored with, \<open>callback\<close> the function it passes, and
  \<open>callbacksOf g\<close> the non-empty functions of the calls that name group \<open>g\<close>, in order.
\<close>

datatype 'f Registration = RegGroup GroupIndex "'f option" | RegSection SectionIndex "'f option"

fun register :: "'f Private \<Rightarrow> 'f Registration \<Rightarrow> 'f Private" where
  "register d (RegGroup index f) = addResetFunction_group d index f"
| "register d (RegSection index f) = addResetFunction d index f"

fun boundGroup :: "'f Registration \<Rightarrow> GroupIndex" where
  "boundGroup (RegGroup index f) = index"
| "boundGroup (RegSection index f) = si_group index"

fun boundSection :: "'f Registration \<Rightarrow> SectionIndex" where
  "boundSection (RegGroup index f) = \<lparr>si_group = index, si_get = 0\<rparr>"
| "boundSection (RegSection index f) = index"

fun callback :: "'f Registration \<Rightarrow> 'f option" where
  "callback (RegGroup index f) = f"
| "callback (RegSection index f) = f"

definition callbacksOf :: "GroupIndex \<Rightarrow> 'f Registration list \<Rightarrow> 'f list" where
  "callbacksOf g regs =
     List.map_filter (\<lambda>r. if boundGroup r = g then callback r else None) regs"

text \<open>\<^verbatim>\<open>Settings::sectionIdentifier\<close>.\<close>

definition sectionIdentifier :: "'f Private \<Rightarrow> SectionIndex \<Rightarrow> error + string" where
  "sectionIdentifier d index =
     (case section_at d index of Inl e \<Rightarrow> Inl e | Inr s \<Rightarrow> Inr (key (sec_identifier s)))"

text \<open>
  The settings in the order the loops of \<open>loadFrom\<close> and \<open>saveAs\<close> visit them, each with
  the section path computed for it and its property pointer.
\<close>

definition sectionSettings ::
  "Settings_Group \<Rightarrow> Settings_Section \<Rightarrow> (string \<times> nat option) list" where
  "sectionSettings g s = map (\<lambda>x. (sectionPath g s, property x)) (vecSetting s)"

definition groupSettings :: "Settings_Group \<Rightarrow> (string \<times> nat option) list" where
  "groupSettings g = concat (map (sectionSettings g) (vecSection g))"

definition settingsOf :: "Settings_Group list \<Rightarrow> (string \<times> nat option) list" where
  "settingsOf groups = concat (map groupSettings groups)"

definition allSettings :: "'f Private \<Rightarrow> (string \<times> nat option) list" where
  "allSettings d = settingsOf (m_vecGroup d)"

text \<open>The loops of \<open>saveAs\<close> and \<open>loadFrom\<close> as one loop over such a list.\<close>

fun saveFlat ::
  "Env \<Rightarrow> heap \<Rightarrow> ExcludePropertyPredicate \<Rightarrow> (string \<times> nat option) list
     \<Rightarrow> QSettings \<times> string list \<Rightarrow> error + QSettings \<times> string list" where
  "saveFlat env h fnExclude [] st = Inr st"
| "saveFlat env h fnExclude (x # rest) st =
     (case saveSetting env h fnExclude (fst x) \<lparr>property = snd x\<rparr> st of
        Inl e \<Rightarrow> Inl e
      | Inr st1 \<Rightarrow> saveFlat env h fnExclude rest st1)"

fun loadFlat ::
  "Env \<Rightarrow> QSettings \<Rightarrow> ExcludePropertyPredicate \<Rightarrow> (string \<times> nat option) list
     \<Rightarrow> heap \<times> string list \<Rightarrow> error + heap \<times> string list" where
  "loadFlat env source fnExclude [] st = Inr st"
| "loadFlat env source fnExclude (x # rest) st =
     (case excluded fnExclude (fst st) (snd x) of
        Inl e \<Rightarrow> Inl e
      | Inr ex \<Rightarrow>
          loadFlat env source fnExclude rest
            (if ex then st else loadPropertyFrom env source (fst x) (snd x) st))"

text \<open>The path of a setting: its section path, a slash, the key of its property.\<close>

definition settingPath :: "heap \<Rightarrow> string \<Rightarrow> nat \<Rightarrow> string" where
  "settingPath h secPath a = secPath @ ''/'' @ key (prop_name (h a))"

text \<open>A property the predicate excludes; an empty predicate excludes nothing.\<close>

definition isExcluded :: "ExcludePropertyPredicate \<Rightarrow> heap \<Rightarrow> nat \<Rightarrow> bool" where
  "isExcluded fnExclude h a = (case fnExclude of None \<Rightarrow> False | Some f \<Rightarrow> f a (h a))"

text \<open>The registry without the settings whose property the predicate excludes.\<close>

definition kept :: "ExcludePropertyPredicate \<Rightarrow> heap \<Rightarrow> nat option \<Rightarrow> bool" where
  "kept fnExclude h p = (case p of None \<Rightarrow> True | Some a \<Rightarrow> \<not> isExcluded fnExclude h a)"

definition withoutExcluded :: "ExcludePropertyPredicate \<Rightarrow> heap \<Rightarrow> 'f Private \<Rightarrow> 'f Private" where
  "withoutExcluded fnExclude h d =
     d\<lparr>m_vecGroup :=
          map (\<lambda>g. g\<lparr>vecSection :=
                 map (\<lambda>s. s\<lparr>vecSetting := filter (\<lambda>x. kept fnExclude h (property x)) (vecSetting s)\<rparr>)
                     (vecSection g)\<rparr>)
              (m_vecGroup d)\<rparr>"

text \<open>The kinds for which \<open>toVariant\<close> only logs, by the name it logs.\<close>

definition unsupportedKind :: "PropertyData \<Rightarrow> string option" where
  "unsupportedKind v =
     (case v of
        PropertyCheckState _ \<Rightarrow> Some ''PropertyCheckState''
      | PropertyOccPnt _ \<Rightarrow> Some ''PropertyOccPnt''
      | PropertyOccTrsf _ \<Rightarrow> Some ''PropertyOccTrsf''
      | _ \<Rightarrow> None)"

text \<open>
  What \<open>fromVariant\<close> computes from the variant for a property, by the kind of the
  property: the value the branch of that kind passes to the setter, \<open>None\<close> when the
  branch returns before it calls a setter.
\<close>

definition convertedValue :: "Env \<Rightarrow> Property \<Rightarrow> QVariant \<Rightarrow> PropertyData option" where
  "convertedValue env p variant =
     (case prop_data p of
        PropertyBool _ \<Rightarrow> Some (PropertyBool (toBool env variant))
      | PropertyInt _ \<Rightarrow> Some (PropertyInt (toInt env variant))
      | PropertyDouble _ \<Rightarrow> Some (PropertyDouble (toDouble env variant))
      | PropertyCheckState _ \<Rightarrow> None
      | PropertyQByteArray _ \<Rightarrow> Some (PropertyQByteArray (toByteArray env variant))
      | PropertyQString _ \<Rightarrow> Some (PropertyQString (toString env variant))
      | PropertyQStringList _ \<Rightarrow> Some (PropertyQStringList (toStringList env variant))
      | PropertyQDateTime _ \<Rightarrow> Some (PropertyQDateTime (toDateTime env variant))
      | PropertyOccPnt _ \<Rightarrow> None
      | PropertyOccTrsf _ \<Rightarrow> None
      | PropertyOccColor _ \<Rightarrow>
          map_option PropertyOccColor (colorFromHex env (toString env variant))
      | PropertyEnumeration enumeration _ \<Rightarrow>
          map_option (\<lambda>ptrItem. PropertyEnumeration enumeration (item_value ptrItem))
            (findItem enumeration (toByteArray env variant))
      | BasePropertyQuantity quantityUnit _ \<Rightarrow>
          (let (trRes, unit) = parseQuantity env (toString env variant) in
             if tr_strUnit trRes = None \<or> qFuzzyIsNull (tr_factor trRes) then None
             else if unit \<noteq> UnitNone \<and> unit \<noteq> quantityUnit then None
             else Some (BasePropertyQuantity quantityUnit (tr_value trRes * tr_factor trRes)))
      | PropertyOther _ \<Rightarrow> None)"

text \<open>
  The sections of a group once \<open>addSetting\<close> under the group has located or created the
  section it takes as default, before it marks that one default and appends the setting.
\<close>

definition withDefaultSection :: "Settings_Group \<Rightarrow> Settings_Section list" where
  "withDefaultSection g =
     (if vecSection g = [] then
        [emptySection\<lparr>sec_identifier := MAYO_TEXT_ID ''Mayo::Settings'' ''DEFAULT''\<rparr>]
      else vecSection g)"

section \<open>Sample inputs\<close>

text \<open>
  A store of properties and two registries on which the theorems are instantiated:
  address 0 holds a length quantity, 1 an enumeration, 2 a check state, 3 a colour,
  4 a boolean. \<open>regA\<close> is the registry after \<open>addGroup\<close> of \<open>Export\<close>, \<open>regB\<close> after
  adding the property at address 0 directly under that group.
\<close>

definition sampleHeap :: heap where
  "sampleHeap a =
     (if a = 0 then \<lparr>prop_name = \<lparr>trContext = ''Mayo'', key = ''length''\<rparr>,
                     prop_data = BasePropertyQuantity Length (254 / 10)\<rparr>
      else if a = 1 then \<lparr>prop_name = \<lparr>trContext = ''Mayo'', key = ''format''\<rparr>,
                     prop_data = PropertyEnumeration
                       [\<lparr>item_value = 0, item_name = ''Binary''\<rparr>,
                        \<lparr>item_value = 1, item_name = ''Ascii''\<rparr>] 0\<rparr>
      else if a = 2 then \<lparr>prop_name = \<lparr>trContext = ''Mayo'', key = ''state''\<rparr>,
                     prop_data = PropertyCheckState Checked\<rparr>
      else if a = 3 then \<lparr>prop_name = \<lparr>trContext = ''Mayo'', key = ''color''\<rparr>,
                     prop_data = PropertyOccColor (1, 0, 0)\<rparr>
      else if a = 4 then \<lparr>prop_name = \<lparr>trContext = ''Mayo'', key = ''flag''\<rparr>,
                     prop_data = PropertyBool True\<rparr>
      else \<lparr>prop_name = \<lparr>trContext = ''Mayo'', key = ''other''\<rparr>,
            prop_data = PropertyOther ''Mayo::PropertyArrayOfStringMetaData''\<rparr>)"

definition regA :: "nat Private" where
  "regA = \<lparr>m_vecGroup = [newGroup ''Export''], m_vecSectionResetFn = []\<rparr>"

definition regB :: "nat Private" where
  "regB = \<lparr>m_vecGroup =
            [\<lparr>grp_identifier = \<lparr>trContext = [], key = ''Export''\<rparr>, grp_overridenTitle = [],
              vecSection = [\<lparr>sec_identifier = \<lparr>trContext = [], key = []\<rparr>,
                             sec_overridenTitle = [], isDefault = True,
                             vecSetting = [\<lparr>property = Some 0\<rparr>]\<rparr>]\<rparr>],
          m_vecSectionResetFn = []\<rparr>"

text \<open>
  Collaborators for the sample inputs: the conversions read a variant of the matching
  shape, two colours and two quantity texts are known, every value is accepted.
\<close>

definition sampleEnv :: Env where
  "sampleEnv =
     \<lparr>toBool = (\<lambda>v. case v of QBool b \<Rightarrow> b | _ \<Rightarrow> False),
      toInt = (\<lambda>v. case v of QInt i \<Rightarrow> i | _ \<Rightarrow> 0),
      toDouble = (\<lambda>v. case v of QDouble x \<Rightarrow> x | _ \<Rightarrow> 0),
      toByteArray = (\<lambda>v. case v of QByteArray s \<Rightarrow> s | QString s \<Rightarrow> s | _ \<Rightarrow> []),
      toString = (\<lambda>v. case v of QByteArray s \<Rightarrow> s | QString s \<Rightarrow> s | _ \<Rightarrow> []),
      toStringList = (\<lambda>v. case v of QStringList l \<Rightarrow> l | _ \<Rightarrow> []),
      toDateTime = (\<lambda>v. case v of QDateTime t \<Rightarrow> t | _ \<Rightarrow> 0),
      colorFromHex = (\<lambda>s. if s = ''#ff0000'' then Some (1, 0, 0)
                          else if s = ''#0000ff'' then Some (0, 0, 1) else None),
      colorToHex = (\<lambda>c. if c = (1, 0, 0) then ''#ff0000'' else ''#0000ff''),
      parseQuantity = (\<lambda>s.
         if s = ''1rad'' then (\<lparr>tr_value = 1, tr_factor = 1, tr_strUnit = Some ''rad''\<rparr>, Angle)
         else if s = ''2mm'' then (\<lparr>tr_value = 2, tr_factor = 1, tr_strUnit = Some ''mm''\<rparr>, Length)
         else (\<lparr>tr_value = 0, tr_factor = 0, tr_strUnit = None\<rparr>, UnitNone)),
      translate = (\<lambda>x u. \<lparr>tr_value = x, tr_factor = 1,
                            tr_strUnit = (if u = Length then Some ''mm'' else None)\<rparr>),
      to_chars = (\<lambda>x precision. if x = 254 / 10 then Some ''25.4'' else None),
      m_doubleToStringPrecision = 6,
      accepts = (\<lambda>p v. True)\<rparr>"

text \<open>
  The registry with the group \<open>Export\<close> whose default section holds the given property
  pointers, and a predicate that excludes the property at address 4.
\<close>

definition exportRegistry :: "nat option list \<Rightarrow> nat Private" where
  "exportRegistry ps =
     \<lparr>m_vecGroup =
        [\<lparr>grp_identifier = \<lparr>trContext = [], key = ''Export''\<rparr>, grp_overridenTitle = [],
          vecSection = [\<lparr>sec_identifier = \<lparr>trContext = [], key = []\<rparr>,
                         sec_overridenTitle = [], isDefault = True,
                         vecSetting = map (\<lambda>p. \<lparr>property = p\<rparr>) ps\<rparr>]\<rparr>],
      m_vecSectionResetFn = []\<rparr>"

definition excludeFlag :: "nat \<Rightarrow> Property \<Rightarrow> bool" where
  "excludeFlag a p = (a = 4)"

text \<open>
  The store of properties with two more booleans: the one at address 5 has the key of the
  one at address 4, the one at address 6 has a key with a slash. \<open>sectionsRegistry\<close> is the
  registry with the group \<open>Export\<close> and, after its default section, the sections \<open>STL\<close>
  holding the property at address 6 and \<open>STL/ascii\<close> holding the one at address 4.
\<close>

definition sampleHeap2 :: heap where
  "sampleHeap2 =
     sampleHeap(5 := \<lparr>prop_name = \<lparr>trContext = ''Mayo'', key = ''flag''\<rparr>,
                      prop_data = PropertyBool False\<rparr>,
                6 := \<lparr>prop_name = \<lparr>trContext = ''Mayo'', key = ''ascii/flag''\<rparr>,
                      prop_data = PropertyBool False\<rparr>)"

definition sectionsRegistry :: "nat Private" where
  "sectionsRegistry =
     \<lparr>m_vecGroup =
        [\<lparr>grp_identifier = \<lparr>trContext = [], key = ''Export''\<rparr>, grp_overridenTitle = [],
          vecSection =
            [\<lparr>sec_identifier = \<lparr>trContext = [], key = []\<rparr>,
              sec_overridenTitle = [], isDefault = True, vecSetting = []\<rparr>,
             \<lparr>sec_identifier = \<lparr>trContext = [], key = ''STL''\<rparr>,
              sec_overridenTitle = [], isDefault = False, vecSetting = [\<lparr>property = Some 6\<rparr>]\<rparr>,
             \<lparr>sec_identifier = \<lparr>trContext = [], key = ''STL/ascii''\<rparr>,
              sec_overridenTitle = [], isDefault = False,
              vecSetting = [\<lparr>property = Some 4\<rparr>]\<rparr>]\<rparr>],
      m_vecSectionResetFn = []\<rparr>"

definition sampleStore :: QSettings where
  "sampleStore = Map.empty(''Export//flag'' \<mapsto> QBool False, ''Export//length'' \<mapsto> QString ''2mm'')"

section \<open>Reading the vectors\<close>

lemma vec_at_Inr: "vec_at xs i = Inr x \<longleftrightarrow> 0 \<le> i \<and> i < int (length xs) \<and> x = xs ! nat i"
  by (auto simp: vec_at_def)

lemma vec_at_Inl: "vec_at xs i = Inl e \<longleftrightarrow> \<not> (0 \<le> i \<and> i < int (length xs)) \<and> e = OutOfRange"
  by (auto simp: vec_at_def)

lemma modifyGroup_Inr:
  "modifyGroup d i f = Inr d1 \<longleftrightarrow>
     0 \<le> i \<and> i < int (length (m_vecGroup d))
     \<and> d1 = d\<lparr>m_vecGroup := (m_vecGroup d)[nat i := f (m_vecGroup d ! nat i)]\<rparr>"
  by (auto simp: modifyGroup_def group_def vec_at_def)

lemma section_at_Inr:
  "section_at d i = Inr s \<longleftrightarrow>
     0 \<le> si_group i \<and> si_group i < int (length (m_vecGroup d))
     \<and> 0 \<le> si_get i \<and> si_get i < int (length (vecSection (m_vecGroup d ! nat (si_group i))))
     \<and> s = vecSection (m_vecGroup d ! nat (si_group i)) ! nat (si_get i)"
  by (auto simp: section_at_def group_def vec_at_def split: sum.splits)

lemma modifySection_Inr:
  "modifySection d i f = Inr d1 \<longleftrightarrow>
     0 \<le> si_group i \<and> si_group i < int (length (m_vecGroup d))
     \<and> 0 \<le> si_get i \<and> si_get i < int (length (vecSection (m_vecGroup d ! nat (si_group i))))
     \<and> d1 = d\<lparr>m_vecGroup := (m_vecGroup d)[nat (si_group i) :=
              (m_vecGroup d ! nat (si_group i))\<lparr>vecSection :=
                 (vecSection (m_vecGroup d ! nat (si_group i)))[nat (si_get i) :=
                    f (vecSection (m_vecGroup d ! nat (si_group i)) ! nat (si_get i))]\<rparr>]\<rparr>"
proof (cases "section_at d i")
  case (Inl e)
  then have "\<not> (0 \<le> si_group i \<and> si_group i < int (length (m_vecGroup d))
     \<and> 0 \<le> si_get i \<and> si_get i < int (length (vecSection (m_vecGroup d ! nat (si_group i)))))"
    using section_at_Inr [of d i] by auto
  with Inl show ?thesis by (auto simp: modifySection_def)
next
  case (Inr s)
  then have s: "0 \<le> si_group i" "si_group i < int (length (m_vecGroup d))"
     "0 \<le> si_get i" "si_get i < int (length (vecSection (m_vecGroup d ! nat (si_group i))))"
     "s = vecSection (m_vecGroup d ! nat (si_group i)) ! nat (si_get i)"
    by (simp_all add: section_at_Inr)
  have "modifySection d i f = modifyGroup d (si_group i)
          (\<lambda>g. g\<lparr>vecSection := (vecSection g)[nat (si_get i) := f s]\<rparr>)"
    using Inr by (simp add: modifySection_def)
  then show ?thesis
    using s(1-4) by (simp add: modifyGroup_Inr s(5) [symmetric])
qed

lemma list_all_update:
  "list_all P xs \<Longrightarrow> P y \<Longrightarrow> list_all P (xs[i := y])"
  by (induction xs arbitrary: i) (auto split: nat.splits)

lemma list_all_nth_: "list_all P xs \<Longrightarrow> i < length xs \<Longrightarrow> P (xs ! i)"
  by (simp add: list_all_length)

lemma szd_update:
  "sectionZeroDefault g \<Longrightarrow> isDefault (f (hd (vecSection g))) \<Longrightarrow>
     sectionZeroDefault (g\<lparr>vecSection := (vecSection g)[k := f (vecSection g ! k)]\<rparr>)"
  by (cases "vecSection g"; cases k) (auto simp: sectionZeroDefault_def)

lemma szd_hd: "sectionZeroDefault g \<Longrightarrow> isDefault (hd (vecSection g))"
  by (cases "vecSection g") (auto simp: sectionZeroDefault_def)

lemma addSetting_Inr:
  "addSetting d p i = Inr (d1, idx) \<longleftrightarrow>
     (\<exists>s. section_at d i = Inr s
        \<and> modifySection d i (\<lambda>s'. s'\<lparr>vecSetting := vecSetting s @ [\<lparr>property = p\<rparr>]\<rparr>) = Inr d1
        \<and> idx = \<lparr>sti_section = i, sti_get = int (length (vecSetting s))\<rparr>)"
  by (auto simp: addSetting_def Let_def split: sum.splits)

lemma addGroup_Inr:
  "addGroup d g = Inr (d1, i) \<Longrightarrow>
     isValidIdentifier g \<and>
     (findGroup (m_vecGroup d) g = Some i \<and> d1 = d
      \<or> findGroup (m_vecGroup d) g = None \<and> i = int (length (m_vecGroup d))
         \<and> d1 = d\<lparr>m_vecGroup := m_vecGroup d @ [newGroup g]\<rparr>)"
  by (auto simp: addGroup_def newGroup_def emptyGroup_def emptySection_def emptyTextId_def
        split: if_splits option.splits)

lemma addSection_Inr:
  "addSection d gi ident = Inr (d1, si) \<Longrightarrow>
     isValidIdentifier ident \<and> 0 \<le> gi \<and> gi < int (length (m_vecGroup d))
     \<and> si = \<lparr>si_group = gi, si_get = int (length (vecSection (m_vecGroup d ! nat gi)))\<rparr>
     \<and> d1 = d\<lparr>m_vecGroup := (m_vecGroup d)[nat gi := (m_vecGroup d ! nat gi)\<lparr>vecSection :=
              vecSection (m_vecGroup d ! nat gi)
                @ [emptySection\<lparr>sec_identifier := emptyTextId\<lparr>key := ident\<rparr>\<rparr>]\<rparr>]\<rparr>"
  by (auto simp: addSection_def group_def vec_at_def Let_def split: if_splits)

lemma addSetting_shape:
  assumes "addSetting d p i = Inr (d1, idx)"
  shows "0 \<le> si_group i \<and> si_group i < int (length (m_vecGroup d))
     \<and> 0 \<le> si_get i \<and> si_get i < int (length (vecSection (m_vecGroup d ! nat (si_group i))))
     \<and> idx = \<lparr>sti_section = i, sti_get = int (length (vecSetting
                (vecSection (m_vecGroup d ! nat (si_group i)) ! nat (si_get i))))\<rparr>
     \<and> d1 = d\<lparr>m_vecGroup := (m_vecGroup d)[nat (si_group i) :=
              (m_vecGroup d ! nat (si_group i))\<lparr>vecSection :=
                 (vecSection (m_vecGroup d ! nat (si_group i)))[nat (si_get i) :=
                    (vecSection (m_vecGroup d ! nat (si_group i)) ! nat (si_get i))
                      \<lparr>vecSetting := vecSetting (vecSection (m_vecGroup d ! nat (si_group i))
                            ! nat (si_get i)) @ [\<lparr>property = p\<rparr>]\<rparr>]\<rparr>]\<rparr>"
proof -
  from assms obtain s where s: "section_at d i = Inr s"
    and m: "modifySection d i (\<lambda>s'. s'\<lparr>vecSetting := vecSetting s @ [\<lparr>property = p\<rparr>]\<rparr>) = Inr d1"
    and idx: "idx = \<lparr>sti_section = i, sti_get = int (length (vecSetting s))\<rparr>"
    unfolding addSetting_Inr by blast
  have s': "s = vecSection (m_vecGroup d ! nat (si_group i)) ! nat (si_get i)"
    using s by (simp add: section_at_Inr)
  show ?thesis using m idx unfolding modifySection_Inr s' by simp
qed

lemma szd_addSetting:
  assumes "addSetting d p i = Inr (d1, idx)"
  shows "\<exists>g1. m_vecGroup d1 = (m_vecGroup d)[nat (si_group i) := g1]
           \<and> 0 \<le> si_group i \<and> nat (si_group i) < length (m_vecGroup d)
           \<and> (sectionZeroDefault (m_vecGroup d ! nat (si_group i)) \<longrightarrow> sectionZeroDefault g1)
           \<and> sti_section idx = i"
proof -
  let ?g = "m_vecGroup d ! nat (si_group i)"
  let ?s = "vecSection ?g ! nat (si_get i)"
  let ?f = "\<lambda>s. s\<lparr>vecSetting := vecSetting ?s @ [\<lparr>property = p\<rparr>]\<rparr>"
  let ?g1 = "?g\<lparr>vecSection := (vecSection ?g)[nat (si_get i) := ?f ?s]\<rparr>"
  note sh = addSetting_shape [OF assms]
  have a: "m_vecGroup d1 = (m_vecGroup d)[nat (si_group i) := ?g1]" using sh by simp
  have b: "sectionZeroDefault ?g \<Longrightarrow> sectionZeroDefault ?g1"
    by (rule szd_update) (simp_all add: szd_hd)
  show ?thesis using a b sh by (intro exI [of _ ?g1]) auto
qed

lemma szd_addSetting_default:
  assumes "addSetting_default d p gi 0 = Inr (d1, idx)"
  shows "\<exists>g1. m_vecGroup d1 = (m_vecGroup d)[nat gi := g1]
           \<and> 0 \<le> gi \<and> nat gi < length (m_vecGroup d) \<and> sectionZeroDefault g1
           \<and> sti_section idx = \<lparr>si_group = gi, si_get = 0\<rparr>"
proof -
  from assms obtain dm where
    m: "modifySection d \<lparr>si_group = gi, si_get = 0\<rparr> (\<lambda>s. s\<lparr>isDefault := True\<rparr>) = Inr dm"
    and a: "addSetting dm p \<lparr>si_group = gi, si_get = 0\<rparr> = Inr (d1, idx)"
    by (auto simp: addSetting_default_def split: sum.splits)
  let ?g = "m_vecGroup d ! nat gi"
  let ?gm = "?g\<lparr>vecSection := (vecSection ?g)[0 := (vecSection ?g ! 0)\<lparr>isDefault := True\<rparr>]\<rparr>"
  have m1: "0 \<le> gi" "nat gi < length (m_vecGroup d)" "vecSection ?g \<noteq> []"
    and m2: "m_vecGroup dm = (m_vecGroup d)[nat gi := ?gm]"
    using m unfolding modifySection_Inr by auto
  have gm: "sectionZeroDefault ?gm"
    using m1(3) by (cases "vecSection ?g") (auto simp: sectionZeroDefault_def)
  from szd_addSetting [OF a] obtain g1 where
    g1: "m_vecGroup d1 = (m_vecGroup dm)[nat gi := g1]"
        "sectionZeroDefault (m_vecGroup dm ! nat gi) \<longrightarrow> sectionZeroDefault g1"
        "sti_section idx = \<lparr>si_group = gi, si_get = 0\<rparr>"
    by auto
  have "m_vecGroup dm ! nat gi = ?gm" using m2 m1 by simp
  then have "sectionZeroDefault g1" using g1(2) gm by simp
  moreover have "m_vecGroup d1 = (m_vecGroup d)[nat gi := g1]" using g1(1) m2 by simp
  ultimately show ?thesis using m1 g1(3) by blast
qed

lemma addSection_TextId_shape:
  assumes "addSection_TextId d gi ident = Inr (d1, si)"
  shows "\<exists>g1. m_vecGroup d1 = (m_vecGroup d)[nat gi := g1]
           \<and> 0 \<le> gi \<and> nat gi < length (m_vecGroup d)
           \<and> si = \<lparr>si_group = gi, si_get = int (length (vecSection (m_vecGroup d ! nat gi)))\<rparr>
           \<and> vecSection g1 = vecSection (m_vecGroup d ! nat gi)
                 @ [emptySection\<lparr>sec_identifier := ident\<rparr>]"
proof -
  from assms obtain dm where
    a: "addSection d gi (key ident) = Inr (dm, si)"
    and m: "modifySection dm si (\<lambda>s. s\<lparr>sec_identifier := ident\<rparr>) = Inr d1"
    by (auto simp: addSection_TextId_def split: sum.splits)
  let ?g = "m_vecGroup d ! nat gi"
  let ?n = "length (vecSection ?g)"
  let ?gm = "?g\<lparr>vecSection := vecSection ?g
                @ [emptySection\<lparr>sec_identifier := emptyTextId\<lparr>key := key ident\<rparr>\<rparr>]\<rparr>"
  note sh = addSection_Inr [OF a]
  have si: "si = \<lparr>si_group = gi, si_get = int ?n\<rparr>" and gi: "0 \<le> gi" "nat gi < length (m_vecGroup d)"
    and dm: "m_vecGroup dm = (m_vecGroup d)[nat gi := ?gm]"
    using sh by auto
  have gm: "m_vecGroup dm ! nat gi = ?gm" using dm gi by simp
  let ?g1 = "?gm\<lparr>vecSection := (vecSection ?gm)[?n := (vecSection ?gm ! ?n)\<lparr>sec_identifier := ident\<rparr>]\<rparr>"
  have "m_vecGroup d1 = (m_vecGroup dm)[nat gi := ?g1]"
    using m unfolding modifySection_Inr si by (simp add: gm)
  then have d1: "m_vecGroup d1 = (m_vecGroup d)[nat gi := ?g1]" using dm by simp
  have "vecSection ?g1 = vecSection ?g @ [emptySection\<lparr>sec_identifier := ident\<rparr>]"
    by simp
  with d1 si gi show ?thesis by blast
qed

lemma szd_addSetting_group:
  assumes "addSetting_group d p gi = Inr (d1, idx)"
  shows "\<exists>g1. m_vecGroup d1 = (m_vecGroup d)[nat gi := g1]
           \<and> 0 \<le> gi \<and> nat gi < length (m_vecGroup d) \<and> sectionZeroDefault g1
           \<and> sti_section idx = \<lparr>si_group = gi, si_get = 0\<rparr>"
proof -
  from assms obtain g where g: "group d gi = Inr g"
    by (auto simp: addSetting_group_def split: sum.splits)
  then have gi: "0 \<le> gi" "nat gi < length (m_vecGroup d)" and g_eq: "g = m_vecGroup d ! nat gi"
    by (auto simp: group_def vec_at_Inr)
  consider (none) "vecSection g = []"
    | (front) "vecSection g \<noteq> []" "isDefault (hd (vecSection g))"
    | (ins) "vecSection g \<noteq> []" "\<not> isDefault (hd (vecSection g))"
    by blast
  then show ?thesis
  proof cases
    case none
    with assms g obtain dm si where
      a: "addSection_TextId d gi (MAYO_TEXT_ID ''Mayo::Settings'' ''DEFAULT'') = Inr (dm, si)"
      and b: "addSetting_default dm p gi (si_get si) = Inr (d1, idx)"
      by (auto simp: addSetting_group_def split: sum.splits)
    from addSection_TextId_shape [OF a] obtain gm where
      gm: "m_vecGroup dm = (m_vecGroup d)[nat gi := gm]"
          "si = \<lparr>si_group = gi, si_get = int (length (vecSection (m_vecGroup d ! nat gi)))\<rparr>"
      by auto
    have "si_get si = 0" using gm(2) none g_eq by simp
    with b have b': "addSetting_default dm p gi 0 = Inr (d1, idx)" by simp
    from szd_addSetting_default [OF b'] obtain g1 where
      g1: "m_vecGroup d1 = (m_vecGroup dm)[nat gi := g1]" "sectionZeroDefault g1"
          "sti_section idx = \<lparr>si_group = gi, si_get = 0\<rparr>"
      by auto
    have "m_vecGroup d1 = (m_vecGroup d)[nat gi := g1]" using g1(1) gm(1) by simp
    with g1 gi show ?thesis by blast
  next
    case front
    with assms g have b: "addSetting_default d p gi 0 = Inr (d1, idx)"
      by (auto simp: addSetting_group_def split: sum.splits)
    from szd_addSetting_default [OF b] show ?thesis .
  next
    case ins
    with assms g obtain dm where
      a: "modifyGroup d gi (\<lambda>g. g\<lparr>vecSection := [] @ vecSection g\<rparr>) = Inr dm"
      and b: "addSetting_default dm p gi 0 = Inr (d1, idx)"
      by (auto simp: addSetting_group_def split: sum.splits)
    from a have dm: "dm = d" unfolding modifyGroup_Inr by simp
    have gm: "m_vecGroup dm = (m_vecGroup d)[nat gi := m_vecGroup d ! nat gi]"
      unfolding dm by simp
    from szd_addSetting_default [OF b] obtain g1 where
      g1: "m_vecGroup d1 = (m_vecGroup dm)[nat gi := g1]" "sectionZeroDefault g1"
          "sti_section idx = \<lparr>si_group = gi, si_get = 0\<rparr>"
      by auto
    have "m_vecGroup d1 = (m_vecGroup d)[nat gi := g1]" using g1(1) gm by simp
    with g1 gi show ?thesis by blast
  qed
qed

lemma isDefaultGroupSection_szd:
  "0 \<le> gi \<Longrightarrow> nat gi < length (m_vecGroup d) \<Longrightarrow> sectionZeroDefault (m_vecGroup d ! nat gi) \<Longrightarrow>
     isDefaultGroupSection d \<lparr>si_group = gi, si_get = 0\<rparr> = Inr True"
  by (cases "vecSection (m_vecGroup d ! nat gi)")
     (auto simp: isDefaultGroupSection_def section_at_def group_def vec_at_def
                 sectionZeroDefault_def)

lemma addSetting_total:
  assumes "section_at d i = Inr s"
  shows "\<exists>d1 idx. addSetting d p i = Inr (d1, idx)"
proof -
  obtain d1 where "modifySection d i (\<lambda>s'. s'\<lparr>vecSetting := vecSetting s @ [\<lparr>property = p\<rparr>]\<rparr>) = Inr d1"
    using assms unfolding modifySection_Inr section_at_Inr by blast
  then show ?thesis using assms by (simp add: addSetting_def)
qed

lemma addSetting_default_total:
  assumes "0 \<le> gi" "nat gi < length (m_vecGroup d)" "vecSection (m_vecGroup d ! nat gi) \<noteq> []"
  shows "\<exists>d1 idx. addSetting_default d p gi 0 = Inr (d1, idx)"
proof -
  obtain dm where
    m: "modifySection d \<lparr>si_group = gi, si_get = 0\<rparr> (\<lambda>s. s\<lparr>isDefault := True\<rparr>) = Inr dm"
    using assms unfolding modifySection_Inr by auto
  then have "m_vecGroup dm = (m_vecGroup d)[nat gi := (m_vecGroup d ! nat gi)\<lparr>vecSection :=
      (vecSection (m_vecGroup d ! nat gi))[0 := (vecSection (m_vecGroup d ! nat gi) ! 0)\<lparr>isDefault := True\<rparr>]\<rparr>]"
    unfolding modifySection_Inr by simp
  then have "\<exists>s. section_at dm \<lparr>si_group = gi, si_get = 0\<rparr> = Inr s"
    using assms unfolding section_at_Inr by simp
  then obtain d1 idx where "addSetting dm p \<lparr>si_group = gi, si_get = 0\<rparr> = Inr (d1, idx)"
    using addSetting_total by blast
  with m show ?thesis by (simp add: addSetting_default_def)
qed

lemma isValid_DEFAULT: "isValidIdentifier ''DEFAULT''"
  by (simp add: isValidIdentifier_def simplified_def ascii_isspace_def)

lemma addSection_TextId_total:
  assumes "isValidIdentifier (key ident)" "0 \<le> gi" "nat gi < length (m_vecGroup d)"
  shows "\<exists>d1 si. addSection_TextId d gi ident = Inr (d1, si)"
proof -
  let ?g = "m_vecGroup d ! nat gi"
  let ?gm = "?g\<lparr>vecSection := vecSection ?g
                @ [emptySection\<lparr>sec_identifier := emptyTextId\<lparr>key := key ident\<rparr>\<rparr>]\<rparr>"
  let ?dm = "d\<lparr>m_vecGroup := (m_vecGroup d)[nat gi := ?gm]\<rparr>"
  let ?si = "\<lparr>si_group = gi, si_get = int (length (vecSection ?g))\<rparr>"
  have a: "addSection d gi (key ident) = Inr (?dm, ?si)"
    using assms by (simp add: addSection_def group_def vec_at_def Let_def)
  have "\<exists>d1. modifySection ?dm ?si (\<lambda>s. s\<lparr>sec_identifier := ident\<rparr>) = Inr d1"
    unfolding modifySection_Inr using assms by simp
  with a show ?thesis by (auto simp: addSection_TextId_def)
qed

lemma addSetting_group_total:
  assumes "0 \<le> gi" "gi < int (length (m_vecGroup d))"
  shows "\<exists>d1 idx. addSetting_group d p gi = Inr (d1, idx)"
proof -
  let ?g = "m_vecGroup d ! nat gi"
  have g: "group d gi = Inr ?g" and n: "nat gi < length (m_vecGroup d)"
    using assms by (simp_all add: group_def vec_at_def)
  consider (none) "vecSection ?g = []"
    | (front) "vecSection ?g \<noteq> []" "isDefault (hd (vecSection ?g))"
    | (ins) "vecSection ?g \<noteq> []" "\<not> isDefault (hd (vecSection ?g))"
    by blast
  then show ?thesis
  proof cases
    case none
    obtain dm si where
      a: "addSection_TextId d gi (MAYO_TEXT_ID ''Mayo::Settings'' ''DEFAULT'') = Inr (dm, si)"
      using addSection_TextId_total [of "MAYO_TEXT_ID ''Mayo::Settings'' ''DEFAULT''" gi d]
        isValid_DEFAULT assms(1) n by (auto simp: MAYO_TEXT_ID_def)
    from addSection_TextId_shape [OF a] obtain gm where
      gm: "m_vecGroup dm = (m_vecGroup d)[nat gi := gm]"
          "si = \<lparr>si_group = gi, si_get = int (length (vecSection ?g))\<rparr>"
          "vecSection gm = vecSection ?g
             @ [emptySection\<lparr>sec_identifier := MAYO_TEXT_ID ''Mayo::Settings'' ''DEFAULT''\<rparr>]"
      by auto
    have z: "si_get si = 0" using gm(2) none by simp
    have "vecSection (m_vecGroup dm ! nat gi) \<noteq> []" using gm(1,3) n by simp
    then obtain d1 idx where "addSetting_default dm p gi 0 = Inr (d1, idx)"
      using addSetting_default_total [of gi dm p] assms(1) n gm(1) by auto
    with a g none z show ?thesis by (simp add: addSetting_group_def)
  next
    case front
    obtain d1 idx where "addSetting_default d p gi 0 = Inr (d1, idx)"
      using addSetting_default_total [of gi d p] assms(1) n front(1) by auto
    with g front show ?thesis by (simp add: addSetting_group_def)
  next
    case ins
    let ?dm = "d\<lparr>m_vecGroup := (m_vecGroup d)[nat gi := ?g\<lparr>vecSection := [] @ vecSection ?g\<rparr>]\<rparr>"
    have a: "modifyGroup d gi (\<lambda>g. g\<lparr>vecSection := [] @ vecSection g\<rparr>) = Inr ?dm"
      unfolding modifyGroup_Inr using assms by simp
    have "vecSection (m_vecGroup ?dm ! nat gi) \<noteq> []" using n ins(1) by simp
    then obtain d1 idx where "addSetting_default ?dm p gi 0 = Inr (d1, idx)"
      using addSetting_default_total [of gi ?dm p] assms(1) n by auto
    with a g ins show ?thesis by (simp add: addSetting_group_def)
  qed
qed

lemma szd_newGroup: "sectionZeroDefault (newGroup g)"
  by (simp add: sectionZeroDefault_def newGroup_def)

lemma defaultFirst_addGroup:
  assumes "addGroup d g = Inr (d1, i)" "defaultFirst d"
  shows "defaultFirst d1"
  using addGroup_Inr [OF assms(1)] assms(2) by (auto simp: defaultFirst_def szd_newGroup)

lemma defaultFirst_addSetting_group:
  assumes "addSetting_group d p gi = Inr (d1, idx)" "defaultFirst d"
  shows "defaultFirst d1"
  using szd_addSetting_group [OF assms(1)] assms(2)
  by (auto simp: defaultFirst_def intro: list_all_update)

lemma defaultFirst_addSetting:
  assumes "addSetting d p i = Inr (d1, idx)" "defaultFirst d"
  shows "defaultFirst d1"
proof -
  from szd_addSetting [OF assms(1)] obtain g1 where
    g1: "m_vecGroup d1 = (m_vecGroup d)[nat (si_group i) := g1]"
        "nat (si_group i) < length (m_vecGroup d)"
        "sectionZeroDefault (m_vecGroup d ! nat (si_group i)) \<longrightarrow> sectionZeroDefault g1"
    by auto
  have "sectionZeroDefault (m_vecGroup d ! nat (si_group i))"
    using assms(2) g1(2) by (simp add: defaultFirst_def list_all_length)
  with g1 assms(2) show ?thesis by (auto simp: defaultFirst_def intro: list_all_update)
qed

lemma defaultFirst_addSection:
  assumes "addSection d gi ident = Inr (d1, si)" "defaultFirst d"
  shows "defaultFirst d1"
proof -
  let ?g = "m_vecGroup d ! nat gi"
  note sh = addSection_Inr [OF assms(1)]
  have "nat gi < length (m_vecGroup d)" using sh by auto
  then have "sectionZeroDefault ?g"
    using assms(2) by (simp add: defaultFirst_def list_all_length)
  then have "sectionZeroDefault (?g\<lparr>vecSection := vecSection ?g
       @ [emptySection\<lparr>sec_identifier := emptyTextId\<lparr>key := ident\<rparr>\<rparr>]\<rparr>)"
    by (cases "vecSection ?g") (auto simp: sectionZeroDefault_def)
  with sh assms(2) show ?thesis by (auto simp: defaultFirst_def intro: list_all_update)
qed

section \<open>Valid identifiers\<close>

lemma simplifiedFrom_empty:
  "simplifiedFrom out pending s = [] \<longleftrightarrow> out = [] \<and> list_all ascii_isspace s"
  by (induction s arbitrary: out pending) auto

lemma isValidIdentifier_iff: "isValidIdentifier s \<longleftrightarrow> \<not> list_all ascii_isspace s"
  by (cases s) (auto simp: isValidIdentifier_def simplified_def simplifiedFrom_empty)

section \<open>Groups are found by identifier\<close>

lemma findGroup_Some:
  "findGroup gs x = Some i \<Longrightarrow>
     0 \<le> i \<and> i < int (length gs) \<and> key (grp_identifier (gs ! nat i)) = x
     \<and> (\<forall>j < nat i. key (grp_identifier (gs ! j)) \<noteq> x)"
proof (induction gs arbitrary: i)
  case Nil
  then show ?case by simp
next
  case (Cons g gs)
  show ?case
  proof (cases "key (grp_identifier g) = x")
    case True
    with Cons.prems show ?thesis by simp
  next
    case False
    with Cons.prems obtain k where k: "findGroup gs x = Some k" and i: "i = k + 1"
      by auto
    from Cons.IH [OF k] have ih: "0 \<le> k" "k < int (length gs)"
      "key (grp_identifier (gs ! nat k)) = x"
      "\<forall>j < nat k. key (grp_identifier (gs ! j)) \<noteq> x" by auto
    have n: "nat i = Suc (nat k)" using i ih(1) by simp
    show ?thesis using ih False n i
      by (auto simp: nth_Cons split: nat.splits)
  qed
qed

lemma findGroup_None:
  "findGroup gs x = None \<longleftrightarrow> x \<notin> set (map (\<lambda>g. key (grp_identifier g)) gs)"
  by (induction gs) auto

lemma findGroup_append_left:
  "findGroup gs x = Some i \<Longrightarrow> findGroup (gs @ ys) x = Some i"
  by (induction gs arbitrary: i) (auto split: if_splits)

lemma findGroup_append_new:
  "findGroup gs x = None \<Longrightarrow> key (grp_identifier g) = x \<Longrightarrow>
     findGroup (gs @ [g]) x = Some (int (length gs))"
  by (induction gs) (auto split: if_splits)

section \<open>Reset functions in registration order\<close>

lemma resetLoop_append: "resetLoop sel (xs @ ys) = resetLoop sel xs @ resetLoop sel ys"
  by (induction xs) auto

lemma resetGroup_register:
  "resetGroup (register d r) g
     = resetGroup d g @ (if boundGroup r = g then (case callback r of None \<Rightarrow> [] | Some f \<Rightarrow> [f]) else [])"
  by (cases r)
     (auto simp: resetGroup_def addResetFunction_group_def addResetFunction_def resetLoop_append
        split: option.splits)

lemma resetAll_register:
  "resetAll (register d r) = resetAll d @ (case callback r of None \<Rightarrow> [] | Some f \<Rightarrow> [f])"
  by (cases r)
     (auto simp: resetAll_def addResetFunction_group_def addResetFunction_def resetLoop_append
        split: option.splits)

lemma resetSection_register:
  "resetSection (register d r) i
     = resetSection d i @ (if boundSection r = i then (case callback r of None \<Rightarrow> [] | Some f \<Rightarrow> [f]) else [])"
  by (cases r)
     (auto simp: resetSection_def addResetFunction_group_def addResetFunction_def resetLoop_append
        split: option.splits)

lemma resetSection_foldl:
  "resetSection (foldl register d regs) i
     = resetSection d i @ List.map_filter (\<lambda>r. if boundSection r = i then callback r else None) regs"
  by (induction regs arbitrary: d)
     (auto simp: resetSection_register List.map_filter_simps split: option.splits)

lemma boundSection_group: "si_group (boundSection r) = boundGroup r"
  by (cases r) auto

lemma resetGroup_foldl:
  "resetGroup (foldl register d regs) g = resetGroup d g @ callbacksOf g regs"
  by (induction regs arbitrary: d)
     (auto simp: resetGroup_register callbacksOf_def List.map_filter_simps split: option.splits)

lemma resetAll_foldl:
  "resetAll (foldl register d regs) = resetAll d @ List.map_filter callback regs"
  by (induction regs arbitrary: d)
     (auto simp: resetAll_register List.map_filter_simps split: option.splits)

section \<open>The branches of fromVariant\<close>

lemma fromVariant_cases:
  assumes "fromVariant env h prop variant = (ok, h1, msgs)"
  shows "(\<not> ok \<and> h1 = h)
       \<or> (\<exists>a v. ok \<and> prop = Some a \<and> accepts env (h a) v \<and> msgs = []
                \<and> h1 = h(a := (h a)\<lparr>prop_data := v\<rparr>))"
proof (cases "prop")
  case None
  with assms show ?thesis by (simp add: fromVariant_def)
next
  case (Some a)
  show ?thesis
  proof (cases "prop_data (h a)")
    case (BasePropertyQuantity u x)
    with assms Some show ?thesis
      by (auto simp: fromVariant_def returnSetValue_def setValue_def Let_def
            split: prod.splits if_splits)
  qed (use assms Some in \<open>auto simp: fromVariant_def returnSetValue_def setValue_def Let_def
            split: option.splits if_splits\<close>)
qed

lemma fromVariant_null: "fromVariant env h None variant = (False, h, [])"
  by (simp add: fromVariant_def)

lemma fromVariant_enum_unknown:
  "prop_data (h a) = PropertyEnumeration en cur \<Longrightarrow>
   findItem en (toByteArray env variant) = None \<Longrightarrow>
   fromVariant env h (Some a) variant
     = (False, h, [fnError (h a) (''fromVariant() found no enumeration item for ''
                                   @ quoted (toString env variant))])"
  by (simp add: fromVariant_def)

lemma fromVariant_color_not_hex:
  "prop_data (h a) = PropertyOccColor c \<Longrightarrow>
   colorFromHex env (toString env variant) = None \<Longrightarrow>
   fromVariant env h (Some a) variant
     = (False, h, [fnError (h a) (''Not hexadecimal format '' @ quoted (toString env variant))])"
  by (simp add: fromVariant_def)

lemma fromVariant_quantity_unparsable:
  "prop_data (h a) = BasePropertyQuantity u x \<Longrightarrow>
   parseQuantity env (toString env variant) = (trRes, unit) \<Longrightarrow>
   tr_strUnit trRes = None \<or> qFuzzyIsNull (tr_factor trRes) \<Longrightarrow>
   fromVariant env h (Some a) variant
     = (False, h, [fnError (h a) (''fromVariant() failed to parse quantity string ''
                                   @ quoted (toString env variant))])"
  by (auto simp: fromVariant_def)

lemma fromVariant_quantity_mismatch:
  "prop_data (h a) = BasePropertyQuantity u x \<Longrightarrow>
   parseQuantity env (toString env variant) = (trRes, unit) \<Longrightarrow>
   tr_strUnit trRes \<noteq> None \<Longrightarrow> \<not> qFuzzyIsNull (tr_factor trRes) \<Longrightarrow>
   unit \<noteq> UnitNone \<Longrightarrow> unit \<noteq> u \<Longrightarrow>
   fromVariant env h (Some a) variant
     = (False, h, [fnError (h a) (''fromVariant() unit mismatch with quantity string ''
                                   @ quoted (toString env variant))])"
  by (auto simp: fromVariant_def)

lemma fromVariant_converted:
  "fst (fromVariant env h (Some a) variant)
     = (case convertedValue env (h a) variant of None \<Rightarrow> False | Some v \<Rightarrow> accepts env (h a) v)"
  "fst (snd (fromVariant env h (Some a) variant))
     = (case convertedValue env (h a) variant of
          None \<Rightarrow> h
        | Some v \<Rightarrow> if accepts env (h a) v then h(a := (h a)\<lparr>prop_data := v\<rparr>) else h)"
proof -
  obtain trRes unit where q: "parseQuantity env (toString env variant) = (trRes, unit)"
    by (cases "parseQuantity env (toString env variant)")
  show "fst (fromVariant env h (Some a) variant)
     = (case convertedValue env (h a) variant of None \<Rightarrow> False | Some v \<Rightarrow> accepts env (h a) v)"
    by (cases "prop_data (h a)")
       (simp_all add: fromVariant_def convertedValue_def returnSetValue_def setValue_def q Let_def
          split: option.splits)
  show "fst (snd (fromVariant env h (Some a) variant))
     = (case convertedValue env (h a) variant of
          None \<Rightarrow> h
        | Some v \<Rightarrow> if accepts env (h a) v then h(a := (h a)\<lparr>prop_data := v\<rparr>) else h)"
    by (cases "prop_data (h a)")
       (simp_all add: fromVariant_def convertedValue_def returnSetValue_def setValue_def q Let_def
          split: option.splits)
qed

lemma fromVariant_result:
  assumes "fromVariant env h prop variant = (ok, h1, msgs)"
  shows "(ok \<longleftrightarrow> (\<exists>a v. prop = Some a \<and> convertedValue env (h a) variant = Some v
                        \<and> accepts env (h a) v))
       \<and> (\<forall>a v. prop = Some a \<and> convertedValue env (h a) variant = Some v
                 \<and> accepts env (h a) v \<longrightarrow> h1 = h(a := (h a)\<lparr>prop_data := v\<rparr>))"
proof (cases "prop")
  case None
  with assms show ?thesis by (simp add: fromVariant_def)
next
  case (Some a)
  from assms Some have ok: "ok = fst (fromVariant env h (Some a) variant)"
    and h1: "h1 = fst (snd (fromVariant env h (Some a) variant))"
    by simp_all
  show ?thesis
    unfolding ok h1 fromVariant_converted using Some
    by (cases "convertedValue env (h a) variant") simp_all
qed

lemma heap_update_same:
  "h(a := (h a)\<lparr>prop_data := v\<rparr>) = h \<longleftrightarrow> v = prop_data (h a)"
proof
  assume "h(a := (h a)\<lparr>prop_data := v\<rparr>) = h"
  then have "(h(a := (h a)\<lparr>prop_data := v\<rparr>)) a = h a" by simp
  then have "prop_data ((h a)\<lparr>prop_data := v\<rparr>) = prop_data (h a)" by simp
  then show "v = prop_data (h a)" by simp
next
  assume "v = prop_data (h a)"
  then show "h(a := (h a)\<lparr>prop_data := v\<rparr>) = h" by simp
qed

lemma sampleHeap_data:
  "prop_data (sampleHeap 0) = BasePropertyQuantity Length (254 / 10)"
  "prop_data (sampleHeap 1) = PropertyEnumeration
     [\<lparr>item_value = 0, item_name = ''Binary''\<rparr>, \<lparr>item_value = 1, item_name = ''Ascii''\<rparr>] 0"
  "prop_data (sampleHeap 2) = PropertyCheckState Checked"
  "prop_data (sampleHeap 3) = PropertyOccColor (1, 0, 0)"
  "prop_data (sampleHeap 4) = PropertyBool True"
  by (simp_all add: sampleHeap_def)

section \<open>The loops over the tree as one loop\<close>

lemma setting_eta: "\<lparr>property = property x\<rparr> = x"
  by (cases x) simp

lemma saveFlat_append:
  "saveFlat env h fx (xs @ ys) st =
     (case saveFlat env h fx xs st of Inl e \<Rightarrow> Inl e | Inr st1 \<Rightarrow> saveFlat env h fx ys st1)"
  by (induction xs arbitrary: st) (auto split: sum.splits)

lemma saveSettings_flat:
  "saveSettings env h fx sp xs st = saveFlat env h fx (map (\<lambda>x. (sp, property x)) xs) st"
  by (induction xs arbitrary: st) (auto simp: setting_eta split: sum.splits)

lemma saveSections_flat:
  "saveSections env h fx g ss st = saveFlat env h fx (concat (map (sectionSettings g) ss)) st"
  by (induction ss arbitrary: st)
     (auto simp: saveFlat_append saveSettings_flat sectionSettings_def split: sum.splits)

lemma saveGroups_flat:
  "saveGroups env h fx gs st = saveFlat env h fx (settingsOf gs) st"
  by (induction gs arbitrary: st)
     (auto simp: settingsOf_def groupSettings_def saveFlat_append saveSections_flat
        split: sum.splits)

lemma loadFlat_append:
  "loadFlat env src fx (xs @ ys) st =
     (case loadFlat env src fx xs st of Inl e \<Rightarrow> Inl e | Inr st1 \<Rightarrow> loadFlat env src fx ys st1)"
  by (induction xs arbitrary: st) (auto split: sum.splits)

lemma loadSettings_flat:
  "loadSettings env src fx sp xs st = loadFlat env src fx (map (\<lambda>x. (sp, property x)) xs) st"
  by (induction xs arbitrary: st) (auto split: sum.splits)

lemma loadSections_flat:
  "loadSections env src fx g ss st = loadFlat env src fx (concat (map (sectionSettings g) ss)) st"
  by (induction ss arbitrary: st)
     (auto simp: loadFlat_append loadSettings_flat sectionSettings_def split: sum.splits)

lemma loadGroups_flat:
  "loadGroups env src fx gs st = loadFlat env src fx (settingsOf gs) st"
  by (induction gs arbitrary: st)
     (auto simp: settingsOf_def groupSettings_def loadFlat_append loadSections_flat
        split: sum.splits)

lemma saveAs_flat:
  "saveAs d env h fx (Some t) =
     (case saveFlat env h fx (allSettings d) (t, []) of
        Inl e \<Rightarrow> Inl e
      | Inr (t1, msgs) \<Rightarrow> Inr (Some t1, msgs))"
  by (simp add: saveAs_def saveGroups_flat allSettings_def)

lemma loadFrom_flat:
  "loadFrom d env src fx h = loadFlat env src fx (allSettings d) (h, [])"
  by (simp add: loadFrom_def loadGroups_flat allSettings_def)

section \<open>What one pass of saveAs writes\<close>

lemma saveSetting_Inr:
  assumes "saveSetting env h fx sp \<lparr>property = p\<rparr> (t, msgs) = Inr (t1, msgs1)"
  shows "\<exists>a. p = Some a
           \<and> (if isExcluded fx h a then t1 = t \<and> msgs1 = msgs
               else \<exists>v m. toVariant env (h a) = Inr (v, m)
                      \<and> t1 = t(settingPath h sp a \<mapsto> v) \<and> msgs1 = msgs @ m)"
  using assms
  by (cases fx; cases p)
     (auto simp: saveSetting_def excluded_def isExcluded_def settingPath_def Let_def
        split: sum.splits if_splits)

lemma saveFlat_unchanged:
  assumes "saveFlat env h fx es (t, msgs) = Inr (t1, msgs1)"
    and "\<forall>x \<in> set es. \<forall>a. snd x = Some a \<and> settingPath h (fst x) a = P \<longrightarrow> isExcluded fx h a"
  shows "t1 P = t P"
  using assms
proof (induction es arbitrary: t msgs)
  case Nil
  then show ?case by simp
next
  case (Cons x es)
  from Cons.prems(1) obtain tm mm where
    s: "saveSetting env h fx (fst x) \<lparr>property = snd x\<rparr> (t, msgs) = Inr (tm, mm)"
    and r: "saveFlat env h fx es (tm, mm) = Inr (t1, msgs1)"
    by (auto split: sum.splits)
  from saveSetting_Inr [OF s] obtain a where a: "snd x = Some a"
    and c: "if isExcluded fx h a then tm = t \<and> mm = msgs
            else \<exists>v m. toVariant env (h a) = Inr (v, m)
                   \<and> tm = t(settingPath h (fst x) a \<mapsto> v) \<and> mm = msgs @ m"
    by blast
  have "tm P = t P"
  proof (cases "isExcluded fx h a")
    case True
    with c show ?thesis by simp
  next
    case False
    with Cons.prems(2) a have "settingPath h (fst x) a \<noteq> P" by auto
    with c False show ?thesis by auto
  qed
  moreover have "t1 P = tm P" using Cons.IH [OF r] Cons.prems(2) by simp
  ultimately show ?case by simp
qed

lemma saveFlat_grows:
  assumes "saveFlat env h fx es (t, msgs) = Inr (t1, msgs1)"
  shows "dom t \<subseteq> dom t1 \<and> set msgs \<subseteq> set msgs1"
  using assms
proof (induction es arbitrary: t msgs)
  case Nil
  then show ?case by simp
next
  case (Cons x es)
  from Cons.prems(1) obtain tm mm where
    s: "saveSetting env h fx (fst x) \<lparr>property = snd x\<rparr> (t, msgs) = Inr (tm, mm)"
    and r: "saveFlat env h fx es (tm, mm) = Inr (t1, msgs1)"
    by (auto split: sum.splits)
  from saveSetting_Inr [OF s] have "dom t \<subseteq> dom tm \<and> set msgs \<subseteq> set mm"
    by (auto split: if_splits)
  with Cons.IH [OF r] show ?case by blast
qed

lemma saveFlat_written:
  assumes "saveFlat env h fx es (t, msgs) = Inr (t1, msgs1)"
    and "(sp, Some a) \<in> set es" and "\<not> isExcluded fx h a"
  shows "settingPath h sp a \<in> dom t1
         \<and> (\<exists>v m. toVariant env (h a) = Inr (v, m) \<and> set m \<subseteq> set msgs1)"
  using assms
proof (induction es arbitrary: t msgs)
  case Nil
  then show ?case by simp
next
  case (Cons x es)
  from Cons.prems(1) obtain tm mm where
    s: "saveSetting env h fx (fst x) \<lparr>property = snd x\<rparr> (t, msgs) = Inr (tm, mm)"
    and r: "saveFlat env h fx es (tm, mm) = Inr (t1, msgs1)"
    by (auto split: sum.splits)
  show ?case
  proof (cases "x = (sp, Some a)")
    case True
    with saveSetting_Inr [OF s] Cons.prems(3) obtain v m where
      v: "toVariant env (h a) = Inr (v, m)" "tm = t(settingPath h sp a \<mapsto> v)" "mm = msgs @ m"
      by auto
    from saveFlat_grows [OF r] v show ?thesis by auto
  next
    case False
    with Cons.prems(2) have "(sp, Some a) \<in> set es" by simp
    from Cons.IH [OF r this Cons.prems(3)] show ?thesis .
  qed
qed

lemma saveSetting_kept:
  "kept fx h p \<Longrightarrow>
     saveSetting env h fx sp \<lparr>property = p\<rparr> st = saveSetting env h None sp \<lparr>property = p\<rparr> st"
  by (cases fx; cases p)
     (auto simp: saveSetting_def excluded_def kept_def isExcluded_def)

lemma saveSetting_not_kept:
  "\<not> kept fx h p \<Longrightarrow> saveSetting env h fx sp \<lparr>property = p\<rparr> st = Inr st"
  by (cases fx; cases p)
     (auto simp: saveSetting_def excluded_def kept_def isExcluded_def)

lemma saveFlat_filter:
  "saveFlat env h fx es st = saveFlat env h None (filter (\<lambda>x. kept fx h (snd x)) es) st"
  by (induction es arbitrary: st)
     (auto simp: saveSetting_kept saveSetting_not_kept split: sum.splits)

lemma sectionSettings_filter:
  assumes "grp_identifier g1 = grp_identifier g"
  shows "sectionSettings g1 (s\<lparr>vecSetting := filter (\<lambda>x. kept fx h (property x)) (vecSetting s)\<rparr>)
           = filter (\<lambda>x. kept fx h (snd x)) (sectionSettings g s)"
proof -
  have "map (\<lambda>x. (sp, property x)) (filter (\<lambda>x. kept fx h (property x)) xs)
          = filter (\<lambda>x. kept fx h (snd x)) (map (\<lambda>x. (sp, property x)) xs)" for sp xs
    by (induction xs) auto
  with assms show ?thesis by (simp add: sectionSettings_def sectionPath_def)
qed

lemma groupSettings_filter:
  "groupSettings (g\<lparr>vecSection :=
       map (\<lambda>s. s\<lparr>vecSetting := filter (\<lambda>x. kept fx h (property x)) (vecSetting s)\<rparr>)
           (vecSection g)\<rparr>)
     = filter (\<lambda>x. kept fx h (snd x)) (groupSettings g)"
  by (simp add: groupSettings_def filter_concat comp_def sectionSettings_filter)

lemma settingsOf_withoutExcluded:
  "allSettings (withoutExcluded fx h d) = filter (\<lambda>x. kept fx h (snd x)) (allSettings d)"
  by (simp add: allSettings_def withoutExcluded_def settingsOf_def filter_concat comp_def
        groupSettings_filter)

lemma saveAs_withoutExcluded:
  "saveAs d env h fx target = saveAs (withoutExcluded fx h d) env h None target"
proof (cases target)
  case None
  then show ?thesis by (simp add: saveAs_def)
next
  case (Some t)
  have "saveFlat env h fx (allSettings d) (t, [])
          = saveFlat env h None (allSettings (withoutExcluded fx h d)) (t, [])"
    by (simp only: settingsOf_withoutExcluded saveFlat_filter [symmetric])
  with Some show ?thesis by (simp add: saveAs_flat)
qed

section \<open>What one pass of loadFrom changes\<close>

lemma loadPropertyFrom_shape:
  assumes "loadPropertyFrom env src sp p (h, msgs) = (h1, msgs1)"
  shows "h1 = h \<or> (\<exists>a v. p = Some a \<and> h1 = h(a := (h a)\<lparr>prop_data := v\<rparr>))"
proof (cases p)
  case None
  with assms show ?thesis by (simp add: loadPropertyFrom_def)
next
  case (Some a)
  show ?thesis
  proof (cases "src (sp @ ''/'' @ key (prop_name (h a)))")
    case None
    with assms Some show ?thesis by (simp add: loadPropertyFrom_def)
  next
    case (Some v)
    obtain ok h2 m where f: "fromVariant env h (Some a) v = (ok, h2, m)"
      by (cases "fromVariant env h (Some a) v") auto
    with assms \<open>p = Some a\<close> Some have "h1 = h2" by (simp add: loadPropertyFrom_def)
    with fromVariant_cases [OF f] \<open>p = Some a\<close> show ?thesis by auto
  qed
qed

lemma loadFlat_excluded_unchanged:
  assumes "loadFlat env src (Some f) es (h, msgs) = Inr (h1, msgs1)" and "f a (h a)"
  shows "h1 a = h a"
  using assms
proof (induction es arbitrary: h msgs)
  case Nil
  then show ?case by simp
next
  case (Cons x es)
  from Cons.prems(1) obtain b where b: "snd x = Some b"
    by (cases "snd x") (auto simp: excluded_def)
  show ?case
  proof (cases "f b (h b)")
    case True
    with Cons.prems(1) b have "loadFlat env src (Some f) es (h, msgs) = Inr (h1, msgs1)"
      by (simp add: excluded_def)
    from Cons.IH [OF this Cons.prems(2)] show ?thesis .
  next
    case False
    obtain h2 m2 where l: "loadPropertyFrom env src (fst x) (Some b) (h, msgs) = (h2, m2)"
      by (cases "loadPropertyFrom env src (fst x) (Some b) (h, msgs)") auto
    with Cons.prems(1) b False have r: "loadFlat env src (Some f) es (h2, m2) = Inr (h1, msgs1)"
      by (simp add: excluded_def)
    have "b \<noteq> a" using False Cons.prems(2) by auto
    with loadPropertyFrom_shape [OF l] have eq: "h2 a = h a" by auto
    with Cons.prems(2) have "f a (h2 a)" by simp
    from Cons.IH [OF r this] eq show ?thesis by simp
  qed
qed

lemma loadFlat_filter:
  assumes "loadFlat env src (Some f) es (h, msgs) = Inr r"
    and "\<forall>b p v. f b (p\<lparr>prop_data := v\<rparr>) = f b p"
    and "\<forall>b. f b (h b) = f b (h0 b)"
  shows "loadFlat env src None (filter (\<lambda>x. kept (Some f) h0 (snd x)) es) (h, msgs) = Inr r"
  using assms
proof (induction es arbitrary: h msgs)
  case Nil
  then show ?case by simp
next
  case (Cons x es)
  from Cons.prems(1) obtain b where b: "snd x = Some b"
    by (cases "snd x") (auto simp: excluded_def)
  have k: "kept (Some f) h0 (snd x) = (\<not> f b (h b))"
    using b Cons.prems(3) by (simp add: kept_def isExcluded_def)
  show ?case
  proof (cases "f b (h b)")
    case True
    with Cons.prems(1) b have "loadFlat env src (Some f) es (h, msgs) = Inr r"
      by (simp add: excluded_def)
    from Cons.IH [OF this Cons.prems(2,3)] k True show ?thesis by simp
  next
    case False
    obtain h2 m2 where l: "loadPropertyFrom env src (fst x) (Some b) (h, msgs) = (h2, m2)"
      by (cases "loadPropertyFrom env src (fst x) (Some b) (h, msgs)") auto
    with Cons.prems(1) b False have r: "loadFlat env src (Some f) es (h2, m2) = Inr r"
      by (simp add: excluded_def)
    have "\<forall>c. f c (h2 c) = f c (h0 c)"
    proof
      fix c
      from loadPropertyFrom_shape [OF l] have "f c (h2 c) = f c (h c)"
        using Cons.prems(2) by (cases "c = b") auto
      with Cons.prems(3) show "f c (h2 c) = f c (h0 c)" by simp
    qed
    from Cons.IH [OF r Cons.prems(2) this] k False b l show ?thesis
      by (simp add: excluded_def)
  qed
qed

lemma loadFlat_total:
  "list_all (\<lambda>x. snd x \<noteq> None) es \<Longrightarrow> \<exists>r. loadFlat env src fx es st = Inr r"
proof (induction es arbitrary: st)
  case Nil
  then show ?case by simp
next
  case (Cons x es)
  then obtain b where b: "snd x = Some b" by auto
  have "\<exists>ex. excluded fx (fst st) (snd x) = Inr ex"
    using b by (cases fx) (auto simp: excluded_def)
  then obtain ex where "excluded fx (fst st) (snd x) = Inr ex" ..
  with Cons show ?case by simp
qed

section \<open>The default section of a group\<close>

lemma addSetting_default_shape:
  assumes "addSetting_default d p gi 0 = Inr (d1, idx)"
  shows "0 \<le> gi \<and> nat gi < length (m_vecGroup d) \<and> vecSection (m_vecGroup d ! nat gi) \<noteq> []
     \<and> m_vecGroup d1 = (m_vecGroup d)[nat gi := (m_vecGroup d ! nat gi)\<lparr>vecSection :=
          (hd (vecSection (m_vecGroup d ! nat gi)))
             \<lparr>isDefault := True,
              vecSetting := vecSetting (hd (vecSection (m_vecGroup d ! nat gi))) @ [\<lparr>property = p\<rparr>]\<rparr>
            # tl (vecSection (m_vecGroup d ! nat gi))\<rparr>]
     \<and> idx = \<lparr>sti_section = \<lparr>si_group = gi, si_get = 0\<rparr>,
              sti_get = int (length (vecSetting (hd (vecSection (m_vecGroup d ! nat gi)))))\<rparr>"
proof -
  from assms obtain dm where
    m: "modifySection d \<lparr>si_group = gi, si_get = 0\<rparr> (\<lambda>s. s\<lparr>isDefault := True\<rparr>) = Inr dm"
    and a: "addSetting dm p \<lparr>si_group = gi, si_get = 0\<rparr> = Inr (d1, idx)"
    by (auto simp: addSetting_default_def split: sum.splits)
  let ?g = "m_vecGroup d ! nat gi"
  let ?gm = "?g\<lparr>vecSection := (vecSection ?g)[0 := (vecSection ?g ! 0)\<lparr>isDefault := True\<rparr>]\<rparr>"
  have m1: "0 \<le> gi" "nat gi < length (m_vecGroup d)" "vecSection ?g \<noteq> []"
    and m2: "m_vecGroup dm = (m_vecGroup d)[nat gi := ?gm]"
    using m unfolding modifySection_Inr by auto
  obtain s0 rest where sr: "vecSection ?g = s0 # rest" using m1(3) by (cases "vecSection ?g") auto
  have gm: "m_vecGroup dm ! nat gi = ?gm" using m2 m1 by simp
  note sh = addSetting_shape [OF a]
  have "m_vecGroup d1 = (m_vecGroup dm)[nat gi := ?gm\<lparr>vecSection :=
          (vecSection ?gm)[0 := (vecSection ?gm ! 0)
              \<lparr>vecSetting := vecSetting (vecSection ?gm ! 0) @ [\<lparr>property = p\<rparr>]\<rparr>]\<rparr>]"
    using sh by (simp add: gm)
  then have d1: "m_vecGroup d1 = (m_vecGroup d)[nat gi := ?g\<lparr>vecSection :=
          s0\<lparr>isDefault := True, vecSetting := vecSetting s0 @ [\<lparr>property = p\<rparr>]\<rparr> # rest\<rparr>]"
    using m2 sr by simp
  have "idx = \<lparr>sti_section = \<lparr>si_group = gi, si_get = 0\<rparr>, sti_get = int (length (vecSetting s0))\<rparr>"
    using sh by (simp add: gm sr)
  with d1 m1 sr show ?thesis by simp
qed

lemma addSection_TextId_exact:
  assumes "addSection_TextId d gi ident = Inr (d1, si)"
  shows "m_vecGroup d1 = (m_vecGroup d)[nat gi := (m_vecGroup d ! nat gi)\<lparr>vecSection :=
           vecSection (m_vecGroup d ! nat gi) @ [emptySection\<lparr>sec_identifier := ident\<rparr>]\<rparr>]"
proof -
  from assms obtain dm where
    a: "addSection d gi (key ident) = Inr (dm, si)"
    and m: "modifySection dm si (\<lambda>s. s\<lparr>sec_identifier := ident\<rparr>) = Inr d1"
    by (auto simp: addSection_TextId_def split: sum.splits)
  let ?g = "m_vecGroup d ! nat gi"
  let ?n = "length (vecSection ?g)"
  let ?gm = "?g\<lparr>vecSection := vecSection ?g
                @ [emptySection\<lparr>sec_identifier := emptyTextId\<lparr>key := key ident\<rparr>\<rparr>]\<rparr>"
  note sh = addSection_Inr [OF a]
  have si: "si = \<lparr>si_group = gi, si_get = int ?n\<rparr>" and gi: "0 \<le> gi" "nat gi < length (m_vecGroup d)"
    and dm: "m_vecGroup dm = (m_vecGroup d)[nat gi := ?gm]"
    using sh by auto
  have gm: "m_vecGroup dm ! nat gi = ?gm" using dm gi by simp
  have "m_vecGroup d1 = (m_vecGroup dm)[nat gi := ?gm\<lparr>vecSection :=
          (vecSection ?gm)[?n := (vecSection ?gm ! ?n)\<lparr>sec_identifier := ident\<rparr>]\<rparr>]"
    using m unfolding modifySection_Inr si by (simp add: gm)
  then show ?thesis using dm by simp
qed

lemma addSetting_group_shape:
  assumes "addSetting_group d p gi = Inr (d1, idx)"
  shows "0 \<le> gi \<and> nat gi < length (m_vecGroup d)
     \<and> m_vecGroup d1 = (m_vecGroup d)[nat gi := (m_vecGroup d ! nat gi)\<lparr>vecSection :=
          (hd (withDefaultSection (m_vecGroup d ! nat gi)))
             \<lparr>isDefault := True,
              vecSetting := vecSetting (hd (withDefaultSection (m_vecGroup d ! nat gi)))
                              @ [\<lparr>property = p\<rparr>]\<rparr>
            # tl (withDefaultSection (m_vecGroup d ! nat gi))\<rparr>]
     \<and> idx = \<lparr>sti_section = \<lparr>si_group = gi, si_get = 0\<rparr>,
              sti_get = int (length (vecSetting (hd (withDefaultSection (m_vecGroup d ! nat gi)))))\<rparr>"
proof -
  let ?g = "m_vecGroup d ! nat gi"
  from assms obtain g where g: "group d gi = Inr g"
    by (auto simp: addSetting_group_def split: sum.splits)
  then have gi: "0 \<le> gi" "nat gi < length (m_vecGroup d)" and g_eq: "g = ?g"
    by (auto simp: group_def vec_at_Inr)
  consider (none) "vecSection ?g = []"
    | (front) "vecSection ?g \<noteq> []" "isDefault (hd (vecSection ?g))"
    | (ins) "vecSection ?g \<noteq> []" "\<not> isDefault (hd (vecSection ?g))"
    by blast
  then show ?thesis
  proof cases
    case none
    let ?id = "MAYO_TEXT_ID ''Mayo::Settings'' ''DEFAULT''"
    from none assms g g_eq obtain dm si where
      a: "addSection_TextId d gi ?id = Inr (dm, si)"
      and b: "addSetting_default dm p gi (si_get si) = Inr (d1, idx)"
      by (auto simp: addSetting_group_def split: sum.splits)
    from addSection_TextId_shape [OF a] have "si_get si = 0" using none by auto
    with b have b': "addSetting_default dm p gi 0 = Inr (d1, idx)" by simp
    have dm: "m_vecGroup dm = (m_vecGroup d)[nat gi := ?g\<lparr>vecSection := [emptySection\<lparr>sec_identifier := ?id\<rparr>]\<rparr>]"
      using addSection_TextId_exact [OF a] none by simp
    have w: "withDefaultSection ?g = [emptySection\<lparr>sec_identifier := ?id\<rparr>]"
      using none by (simp add: withDefaultSection_def)
    from addSetting_default_shape [OF b'] show ?thesis
      unfolding w using dm gi by simp
  next
    case front
    with assms g g_eq have b: "addSetting_default d p gi 0 = Inr (d1, idx)"
      by (auto simp: addSetting_group_def split: sum.splits)
    have w: "withDefaultSection ?g = vecSection ?g"
      using front by (simp add: withDefaultSection_def)
    from addSetting_default_shape [OF b] show ?thesis unfolding w by simp
  next
    case ins
    with assms g g_eq obtain dm where
      a: "modifyGroup d gi (\<lambda>g. g\<lparr>vecSection := [] @ vecSection g\<rparr>) = Inr dm"
      and b: "addSetting_default dm p gi 0 = Inr (d1, idx)"
      by (auto simp: addSetting_group_def split: sum.splits)
    have dm: "m_vecGroup dm = (m_vecGroup d)[nat gi := ?g\<lparr>vecSection := vecSection ?g\<rparr>]"
      using a unfolding modifyGroup_Inr by simp
    have w: "withDefaultSection ?g = vecSection ?g"
      using ins by (simp add: withDefaultSection_def)
    from addSetting_default_shape [OF b] show ?thesis
      unfolding w using dm gi by simp
  qed
qed



section \<open>Registries built by the calls\<close>

lemma registryAfter_Inr: "registryAfter r = Inr d1 \<longleftrightarrow> (\<exists>i. r = Inr (d1, i))"
  by (auto simp: registryAfter_def split: sum.splits)

lemma unnamedDefault_iff:
  "unnamedDefault g \<longleftrightarrow> vecSection g \<noteq> [] \<and> isDefault (hd (vecSection g))
      \<and> key (sec_identifier (hd (vecSection g))) = []"
  by (cases "vecSection g") (simp_all add: unnamedDefault_def)

lemma unnamedDefault_szd: "unnamedDefault g \<Longrightarrow> sectionZeroDefault g"
  by (cases "vecSection g") (simp_all add: unnamedDefault_def sectionZeroDefault_def)

lemma unnamedDefault_newGroup: "unnamedDefault (newGroup g)"
  by (simp add: unnamedDefault_def newGroup_def)

lemma unnamedDefaultFirst_update:
  assumes "unnamedDefaultFirst d" "m_vecGroup d1 = (m_vecGroup d)[n := g1]"
    "n < length (m_vecGroup d) \<Longrightarrow> unnamedDefault (m_vecGroup d ! n) \<Longrightarrow> unnamedDefault g1"
  shows "unnamedDefaultFirst d1"
proof (cases "n < length (m_vecGroup d)")
  case True
  then have "unnamedDefault (m_vecGroup d ! n)"
    using assms(1) by (simp add: unnamedDefaultFirst_def list_all_length)
  with assms True show ?thesis by (auto simp: unnamedDefaultFirst_def intro: list_all_update)
next
  case False
  then show ?thesis using assms(1,2) by (simp add: unnamedDefaultFirst_def list_update_beyond)
qed

lemma unnamedDefault_section_update:
  assumes "unnamedDefault g" "isDefault (f (hd (vecSection g)))"
    "key (sec_identifier (f (hd (vecSection g)))) = []"
  shows "unnamedDefault (g\<lparr>vecSection := (vecSection g)[k := f (vecSection g ! k)]\<rparr>)"
  using assms by (cases "vecSection g"; cases k) (auto simp: unnamedDefault_def)

lemma unnamedDefaultFirst_modifyGroup:
  assumes "modifyGroup d i f = Inr d1" "unnamedDefaultFirst d"
    "\<And>g. vecSection (f g) = vecSection g"
  shows "unnamedDefaultFirst d1"
proof -
  from assms(1) have e: "m_vecGroup d1 = (m_vecGroup d)[nat i := f (m_vecGroup d ! nat i)]"
    unfolding modifyGroup_Inr by simp
  show ?thesis
  proof (rule unnamedDefaultFirst_update [OF assms(2) e])
    assume "unnamedDefault (m_vecGroup d ! nat i)"
    then show "unnamedDefault (f (m_vecGroup d ! nat i))"
      by (simp add: unnamedDefault_def assms(3))
  qed
qed

lemma unnamedDefaultFirst_modifySection:
  assumes "modifySection d i f = Inr d1" "unnamedDefaultFirst d"
    "\<And>s. isDefault s \<Longrightarrow> isDefault (f s)" "\<And>s. sec_identifier (f s) = sec_identifier s"
  shows "unnamedDefaultFirst d1"
proof -
  let ?g = "m_vecGroup d ! nat (si_group i)"
  from assms(1) have e: "m_vecGroup d1 = (m_vecGroup d)[nat (si_group i) :=
      ?g\<lparr>vecSection := (vecSection ?g)[nat (si_get i) := f (vecSection ?g ! nat (si_get i))]\<rparr>]"
    unfolding modifySection_Inr by simp
  show ?thesis
  proof (rule unnamedDefaultFirst_update [OF assms(2) e])
    assume u: "unnamedDefault ?g"
    show "unnamedDefault
       (?g\<lparr>vecSection := (vecSection ?g)[nat (si_get i) := f (vecSection ?g ! nat (si_get i))]\<rparr>)"
      using u assms(3,4) by (intro unnamedDefault_section_update) (simp_all add: unnamedDefault_iff)
  qed
qed

lemma unnamedDefaultFirst_addGroup:
  assumes "addGroup d g = Inr (d1, i)" "unnamedDefaultFirst d"
  shows "unnamedDefaultFirst d1"
  using addGroup_Inr [OF assms(1)] assms(2)
  by (auto simp: unnamedDefaultFirst_def unnamedDefault_newGroup)

lemma unnamedDefaultFirst_addGroup_TextId:
  assumes "addGroup_TextId d ident = Inr (d1, i)" "unnamedDefaultFirst d"
  shows "unnamedDefaultFirst d1"
proof -
  from assms(1) obtain dm where a: "addGroup d (key ident) = Inr (dm, i)"
    and m: "modifyGroup dm i (\<lambda>g. g\<lparr>grp_identifier := ident\<rparr>) = Inr d1"
    by (auto simp: addGroup_TextId_def split: sum.splits)
  from unnamedDefaultFirst_addGroup [OF a assms(2)] have "unnamedDefaultFirst dm" .
  from unnamedDefaultFirst_modifyGroup [OF m this] show ?thesis by simp
qed

lemma unnamedDefault_append:
  "unnamedDefault g \<Longrightarrow> unnamedDefault (g\<lparr>vecSection := vecSection g @ ss\<rparr>)"
  by (cases "vecSection g") (simp_all add: unnamedDefault_def)

lemma unnamedDefaultFirst_addSection:
  assumes "addSection d gi ident = Inr (d1, si)" "unnamedDefaultFirst d"
  shows "unnamedDefaultFirst d1"
proof -
  from addSection_Inr [OF assms(1)] have
    e: "m_vecGroup d1 = (m_vecGroup d)[nat gi := (m_vecGroup d ! nat gi)\<lparr>vecSection :=
              vecSection (m_vecGroup d ! nat gi)
                @ [emptySection\<lparr>sec_identifier := emptyTextId\<lparr>key := ident\<rparr>\<rparr>]\<rparr>]"
    by simp
  show ?thesis
    by (rule unnamedDefaultFirst_update [OF assms(2) e]) (rule unnamedDefault_append)
qed

lemma unnamedDefaultFirst_addSection_TextId:
  assumes "addSection_TextId d gi ident = Inr (d1, si)" "unnamedDefaultFirst d"
  shows "unnamedDefaultFirst d1"
  by (rule unnamedDefaultFirst_update [OF assms(2) addSection_TextId_exact [OF assms(1)]])
     (rule unnamedDefault_append)

lemma unnamedDefaultFirst_addSetting:
  assumes "addSetting d p i = Inr (d1, idx)" "unnamedDefaultFirst d"
  shows "unnamedDefaultFirst d1"
proof -
  from assms(1) obtain s :: Settings_Section where
    m: "modifySection d i (\<lambda>s'. s'\<lparr>vecSetting := vecSetting s @ [\<lparr>property = p\<rparr>]\<rparr>) = Inr d1"
    unfolding addSetting_Inr by auto
  from unnamedDefaultFirst_modifySection [OF m assms(2)] show ?thesis by simp
qed

lemma unnamedDefaultFirst_addSetting_group:
  assumes "addSetting_group d p gi = Inr (d1, idx)" "unnamedDefaultFirst d"
  shows "unnamedDefaultFirst d1"
proof -
  let ?g = "m_vecGroup d ! nat gi"
  let ?w = "withDefaultSection ?g"
  from addSetting_group_shape [OF assms(1)] have
    e: "m_vecGroup d1 = (m_vecGroup d)[nat gi := ?g\<lparr>vecSection :=
          (hd ?w)\<lparr>isDefault := True, vecSetting := vecSetting (hd ?w) @ [\<lparr>property = p\<rparr>]\<rparr>
            # tl ?w\<rparr>]"
    by simp
  show ?thesis
  proof (rule unnamedDefaultFirst_update [OF assms(2) e])
    assume u: "unnamedDefault ?g"
    then have "?w = vecSection ?g" by (simp add: withDefaultSection_def unnamedDefault_iff)
    with u show "unnamedDefault (?g\<lparr>vecSection :=
          (hd ?w)\<lparr>isDefault := True, vecSetting := vecSetting (hd ?w) @ [\<lparr>property = p\<rparr>]\<rparr>
            # tl ?w\<rparr>)"
      by (simp add: unnamedDefault_iff)
  qed
qed

lemma unnamedDefaultFirst_addResetFunction:
  "unnamedDefaultFirst (addResetFunction d i f) = unnamedDefaultFirst d"
  by (simp add: addResetFunction_def unnamedDefaultFirst_def split: option.splits)

lemma unnamedDefaultFirst_perform:
  assumes "perform d c = Inr d1" "unnamedDefaultFirst d"
  shows "unnamedDefaultFirst d1"
proof (cases c)
  case (AddGroupId ident)
  with assms show ?thesis
    by (auto simp: registryAfter_Inr intro: unnamedDefaultFirst_addGroup_TextId)
next
  case (AddGroup ident)
  with assms show ?thesis by (auto simp: registryAfter_Inr intro: unnamedDefaultFirst_addGroup)
next
  case (SetGroupTitle i t)
  with assms have "modifyGroup d i (\<lambda>g. g\<lparr>grp_overridenTitle := t\<rparr>) = Inr d1"
    by (simp add: setGroupTitle_def)
  from unnamedDefaultFirst_modifyGroup [OF this assms(2)] show ?thesis by simp
next
  case (AddResetFunctionGroup i f)
  with assms show ?thesis
    by (auto simp: addResetFunction_group_def unnamedDefaultFirst_addResetFunction)
next
  case (AddResetFunction i f)
  with assms show ?thesis by (auto simp: unnamedDefaultFirst_addResetFunction)
next
  case (AddSectionId i ident)
  with assms show ?thesis
    by (auto simp: registryAfter_Inr intro: unnamedDefaultFirst_addSection_TextId)
next
  case (AddSection i ident)
  with assms show ?thesis by (auto simp: registryAfter_Inr intro: unnamedDefaultFirst_addSection)
next
  case (SetSectionTitle i t)
  with assms have "modifySection d i (\<lambda>s. s\<lparr>sec_overridenTitle := t\<rparr>) = Inr d1"
    by (simp add: setSectionTitle_def)
  from unnamedDefaultFirst_modifySection [OF this assms(2)] show ?thesis by simp
next
  case (AddSettingGroup p i)
  with assms show ?thesis
    by (auto simp: registryAfter_Inr intro: unnamedDefaultFirst_addSetting_group)
next
  case (AddSetting p i)
  with assms show ?thesis by (auto simp: registryAfter_Inr intro: unnamedDefaultFirst_addSetting)
qed

lemma unnamedDefaultFirst_run:
  "run d cs = Inr d1 \<Longrightarrow> unnamedDefaultFirst d \<Longrightarrow> unnamedDefaultFirst d1"
proof (induction cs arbitrary: d)
  case Nil
  then show ?case by simp
next
  case (Cons c cs)
  from Cons.prems(1) obtain dm where p: "perform d c = Inr dm" and r: "run dm cs = Inr d1"
    by (auto split: sum.splits)
  from Cons.IH [OF r unnamedDefaultFirst_perform [OF p Cons.prems(2)]] show ?case .
qed

lemma unnamedDefaultFirst_built:
  assumes "run initPrivate cs = Inr d"
  shows "unnamedDefaultFirst d"
  using unnamedDefaultFirst_run [OF assms] by (simp add: unnamedDefaultFirst_def initPrivate_def)

lemma defaultFirst_built:
  assumes "run initPrivate cs = Inr d"
  shows "defaultFirst d"
  using unnamedDefaultFirst_built [OF assms]
  by (simp add: unnamedDefaultFirst_def defaultFirst_def list_all_iff unnamedDefault_szd)

lemma built_group:
  assumes "run initPrivate cs = Inr d" "group d gi = Inr g"
  shows "unnamedDefault g"
proof -
  from assms(2) have "0 \<le> gi" "nat gi < length (m_vecGroup d)" "g = m_vecGroup d ! nat gi"
    by (auto simp: group_def vec_at_Inr)
  with unnamedDefaultFirst_built [OF assms(1)] show ?thesis
    by (simp add: unnamedDefaultFirst_def list_all_length)
qed

section \<open>Runs on the sample inputs\<close>

lemma valid_Export: "isValidIdentifier ''Export''"
  by (simp add: isValidIdentifier_def simplified_def ascii_isspace_def)

lemma addGroup_Export: "addGroup (initPrivate :: nat Private) ''Export'' = Inr (regA, 0)"
  using valid_Export
  by (simp add: addGroup_def initPrivate_def regA_def newGroup_def emptyGroup_def
        emptySection_def emptyTextId_def)

lemma addSetting_regA:
  "addSetting_group regA (Some 0) 0
     = Inr (regB, \<lparr>sti_section = \<lparr>si_group = 0, si_get = 0\<rparr>, sti_get = 0\<rparr>)"
  by (simp add: addSetting_group_def addSetting_default_def addSetting_def modifySection_def
        modifyGroup_def section_at_def group_def vec_at_def regA_def regB_def newGroup_def)

lemma sampleHeap_key:
  "key (prop_name (sampleHeap 0)) = ''length''"
  "key (prop_name (sampleHeap 2)) = ''state''"
  "key (prop_name (sampleHeap 4)) = ''flag''"
  by (simp_all add: sampleHeap_def)

lemma toVariant_sample_length: "toVariant sampleEnv (sampleHeap 0) = Inr (QString ''25.4mm'', [])"
  by (simp add: toVariant_def sampleHeap_data sampleEnv_def)

lemma toVariant_unsupported:
  "unsupportedKind (prop_data p) = Some kind \<Longrightarrow>
     toVariant env p = Inr (Invalid, [''toVariant() not yet implemented for '' @ kind])"
  by (auto simp: unsupportedKind_def toVariant_def split: PropertyData.splits)

lemma saveAs_sample_state:
  "saveAs (exportRegistry [Some 2]) sampleEnv sampleHeap None (Some Map.empty)
     = Inr (Some (Map.empty(''Export//state'' \<mapsto> Invalid)),
            [''toVariant() not yet implemented for PropertyCheckState''])"
  by (simp add: saveAs_def exportRegistry_def saveSetting_def excluded_def sectionPath_def
        toVariant_def sampleHeap_data sampleHeap_key)

lemma sample_settings:
  "allSettings (exportRegistry [Some 4, Some 0]) = [(''Export/'', Some 4), (''Export/'', Some 0)]"
  by (simp add: allSettings_def settingsOf_def groupSettings_def sectionSettings_def
        sectionPath_def exportRegistry_def)

lemma sample_withoutExcluded:
  "withoutExcluded (Some excludeFlag) sampleHeap (exportRegistry [Some 4, Some 0])
     = exportRegistry [Some 0]"
  by (simp add: withoutExcluded_def exportRegistry_def kept_def isExcluded_def excludeFlag_def)

lemma sample_save_excluding:
  "saveAs (exportRegistry [Some 4, Some 0]) sampleEnv sampleHeap (Some excludeFlag) (Some Map.empty)
     = Inr (Some (Map.empty(''Export//length'' \<mapsto> QString ''25.4mm'')), [])"
  by (simp add: saveAs_def exportRegistry_def saveSetting_def excluded_def sectionPath_def
        excludeFlag_def toVariant_sample_length sampleHeap_key)

lemma sample_load_excluding:
  "loadFrom (exportRegistry [Some 4, Some 0]) sampleEnv sampleStore (Some excludeFlag) sampleHeap
     = Inr (sampleHeap(0 := (sampleHeap 0)\<lparr>prop_data := BasePropertyQuantity Length 2\<rparr>), [])"
  by (simp add: loadFrom_def exportRegistry_def excluded_def excludeFlag_def sectionPath_def
        loadPropertyFrom_def sampleHeap_key sampleStore_def fromVariant_def sampleHeap_data
        sampleEnv_def qFuzzyIsNull_def returnSetValue_def setValue_def)

lemma sampleHeap2_at:
  "key (prop_name (sampleHeap2 4)) = ''flag''"
  "key (prop_name (sampleHeap2 5)) = ''flag''"
  "prop_data (sampleHeap2 5) = PropertyBool False"
  "key (prop_name (sampleHeap2 6)) = ''ascii/flag''"
  "prop_data (sampleHeap2 6) = PropertyBool False"
  by (simp_all add: sampleHeap2_def sampleHeap_def)

lemma run_shared_key:
  "run (initPrivate :: nat Private)
       [AddGroup ''Export'', AddSettingGroup (Some 4) 0, AddSettingGroup (Some 5) 0]
     = Inr (exportRegistry [Some 4, Some 5])"
proof -
  have a1: "addSetting_group regA (Some 4) 0
     = Inr (exportRegistry [Some 4], \<lparr>sti_section = \<lparr>si_group = 0, si_get = 0\<rparr>, sti_get = 0\<rparr>)"
    by (simp add: addSetting_group_def addSetting_default_def addSetting_def modifySection_def
        modifyGroup_def section_at_def group_def vec_at_def regA_def exportRegistry_def
        newGroup_def)
  have a2: "addSetting_group (exportRegistry [Some 4]) (Some 5) 0
     = Inr (exportRegistry [Some 4, Some 5],
            \<lparr>sti_section = \<lparr>si_group = 0, si_get = 0\<rparr>, sti_get = 1\<rparr>)"
    by (simp add: addSetting_group_def addSetting_default_def addSetting_def modifySection_def
        modifyGroup_def section_at_def group_def vec_at_def exportRegistry_def)
  show ?thesis by (simp add: registryAfter_def addGroup_Export a1 a2)
qed

lemma run_sections:
  "run (initPrivate :: nat Private)
       [AddGroup ''Export'', AddSection 0 ''STL'', AddSection 0 ''STL/ascii'',
        AddSetting (Some 6) \<lparr>si_group = 0, si_get = 1\<rparr>,
        AddSetting (Some 4) \<lparr>si_group = 0, si_get = 2\<rparr>]
     = Inr sectionsRegistry"
proof -
  have v: "isValidIdentifier ''STL''" "isValidIdentifier ''STL/ascii''"
    by (simp_all add: isValidIdentifier_def simplified_def ascii_isspace_def)
  show ?thesis
    by (simp add: registryAfter_def addGroup_Export regA_def newGroup_def addSection_def v
        group_def vec_at_def addSetting_def modifySection_def modifyGroup_def section_at_def
        sectionsRegistry_def emptySection_def emptyTextId_def)
qed

section \<open>Group identifiers stay distinct\<close>

lemma groupKeys_addGroup:
  assumes "addGroup d g = Inr (d1, i)"
    and "distinct (map (\<lambda>x. key (grp_identifier x)) (m_vecGroup d))"
  shows "distinct (map (\<lambda>x. key (grp_identifier x)) (m_vecGroup d1))"
  using addGroup_Inr [OF assms(1)] assms(2)
  by (auto simp: findGroup_None newGroup_def)

lemma groupKeys_addSection:
  assumes "addSection d gi ident = Inr (d1, si)"
  shows "map (\<lambda>x. key (grp_identifier x)) (m_vecGroup d1)
           = map (\<lambda>x. key (grp_identifier x)) (m_vecGroup d)"
  using addSection_Inr [OF assms] by (auto simp: map_update list_update_same_conv)

section \<open>Verified properties\<close>

text \<open>
  C1. A true result of \<open>fromVariant\<close> does not mean that the value of the property has
  changed: the value converted from the variant may be the one the property holds. What
  holds: when \<open>fromVariant\<close> returns false the store of properties is the one before the
  call; it returns true exactly when the pointer is not null, the branch for the kind of
  the property converts the variant to a value and passes it to the setter, and the
  setter accepts it, and then the property owns that converted value; so the value of the
  property changes exactly when \<open>fromVariant\<close> returns true and the converted value
  differs from the one before. No other property is touched. A null pointer, an
  enumeration symbol that \<open>findItem\<close> does not find, a text that \<open>colorFromHex\<close>
  rejects and a quantity text that \<open>parseQuantity\<close> cannot parse (null unit symbol or
  null factor) each give false and the store unchanged.
\<close>

theorem fromVariant_no_partial_write:
  assumes "fromVariant env h prop variant = (ok, h1, msgs)"
  shows "(\<not> ok \<longrightarrow> h1 = h)
       \<and> (ok \<longleftrightarrow> (\<exists>a v. prop = Some a \<and> convertedValue env (h a) variant = Some v
                        \<and> accepts env (h a) v))
       \<and> (ok \<longrightarrow> (\<exists>a v. prop = Some a \<and> convertedValue env (h a) variant = Some v
                          \<and> accepts env (h a) v
                          \<and> h1 = h(a := (h a)\<lparr>prop_data := v\<rparr>)))
       \<and> (h1 \<noteq> h \<longleftrightarrow> (\<exists>a v. prop = Some a \<and> convertedValue env (h a) variant = Some v
                            \<and> accepts env (h a) v \<and> v \<noteq> prop_data (h a)))
       \<and> (\<forall>b. prop \<noteq> Some b \<longrightarrow> h1 b = h b)
       \<and> (prop = None \<longrightarrow> \<not> ok \<and> h1 = h)
       \<and> (\<forall>a en cur. prop = Some a \<and> prop_data (h a) = PropertyEnumeration en cur
              \<and> findItem en (toByteArray env variant) = None \<longrightarrow> \<not> ok \<and> h1 = h)
       \<and> (\<forall>a c. prop = Some a \<and> prop_data (h a) = PropertyOccColor c
              \<and> colorFromHex env (toString env variant) = None \<longrightarrow> \<not> ok \<and> h1 = h)
       \<and> (\<forall>a u x. prop = Some a \<and> prop_data (h a) = BasePropertyQuantity u x
              \<and> (tr_strUnit (fst (parseQuantity env (toString env variant))) = None
                  \<or> qFuzzyIsNull (tr_factor (fst (parseQuantity env (toString env variant)))))
              \<longrightarrow> \<not> ok \<and> h1 = h)"
proof (intro conjI allI impI)
  note c = fromVariant_cases [OF assms]
  note r = fromVariant_result [OF assms]
  show f: "h1 = h" if "\<not> ok" using c that by auto
  show iff: "ok \<longleftrightarrow> (\<exists>a v. prop = Some a \<and> convertedValue env (h a) variant = Some v
                        \<and> accepts env (h a) v)"
    using r by blast
  show st: "\<exists>a v. prop = Some a \<and> convertedValue env (h a) variant = Some v
               \<and> accepts env (h a) v \<and> h1 = h(a := (h a)\<lparr>prop_data := v\<rparr>)"
    if ok using r that by blast
  show "h1 \<noteq> h \<longleftrightarrow> (\<exists>a v. prop = Some a \<and> convertedValue env (h a) variant = Some v
                            \<and> accepts env (h a) v \<and> v \<noteq> prop_data (h a))"
  proof
    assume n: "h1 \<noteq> h"
    with f have ok by blast
    from st [OF this] obtain a v where
      a: "prop = Some a" "convertedValue env (h a) variant = Some v" "accepts env (h a) v"
         "h1 = h(a := (h a)\<lparr>prop_data := v\<rparr>)"
      by blast
    from n a(4) have "v \<noteq> prop_data (h a)" using heap_update_same [of h a v] by simp
    with a show "\<exists>a v. prop = Some a \<and> convertedValue env (h a) variant = Some v
                            \<and> accepts env (h a) v \<and> v \<noteq> prop_data (h a)"
      by blast
  next
    assume "\<exists>a v. prop = Some a \<and> convertedValue env (h a) variant = Some v
                            \<and> accepts env (h a) v \<and> v \<noteq> prop_data (h a)"
    then obtain a v where
      a: "prop = Some a" "convertedValue env (h a) variant = Some v" "accepts env (h a) v"
         "v \<noteq> prop_data (h a)"
      by blast
    with r have "h1 = h(a := (h a)\<lparr>prop_data := v\<rparr>)" by blast
    with a(4) show "h1 \<noteq> h" using heap_update_same [of h a v] by simp
  qed
  show "h1 b = h b" if "prop \<noteq> Some b" for b
  proof (cases ok)
    case True
    with c obtain a v where "prop = Some a" "h1 = h(a := (h a)\<lparr>prop_data := v\<rparr>)" by auto
    with that show ?thesis by auto
  next
    case False
    with c show ?thesis by auto
  qed
  show "\<not> ok" "h1 = h" if "prop = None"
    using assms that by (simp_all add: fromVariant_null)
  show "\<not> ok" "h1 = h"
    if "prop = Some a \<and> prop_data (h a) = PropertyEnumeration en cur
          \<and> findItem en (toByteArray env variant) = None" for a en cur
    using assms that fromVariant_enum_unknown [of h a en cur env variant] by simp_all
  show "\<not> ok" "h1 = h"
    if "prop = Some a \<and> prop_data (h a) = PropertyOccColor c
          \<and> colorFromHex env (toString env variant) = None" for a c
    using assms that fromVariant_color_not_hex [of h a c env variant] by simp_all
  show "\<not> ok" "h1 = h"
    if "prop = Some a \<and> prop_data (h a) = BasePropertyQuantity u x
          \<and> (tr_strUnit (fst (parseQuantity env (toString env variant))) = None
              \<or> qFuzzyIsNull (tr_factor (fst (parseQuantity env (toString env variant)))))"
    for a u x
    using assms that
      fromVariant_quantity_unparsable [of h a u x env variant
        "fst (parseQuantity env (toString env variant))"
        "snd (parseQuantity env (toString env variant))"]
    by auto
qed

theorem fromVariant_no_partial_write_witness:
  "\<not> fst (fromVariant sampleEnv sampleHeap None (QBool False))
   \<and> fst (snd (fromVariant sampleEnv sampleHeap None (QBool False))) = sampleHeap
   \<and> findItem [\<lparr>item_value = 0, item_name = ''Binary''\<rparr>, \<lparr>item_value = 1, item_name = ''Ascii''\<rparr>]
        (toByteArray sampleEnv (QString ''Bogus'')) = None
   \<and> \<not> fst (fromVariant sampleEnv sampleHeap (Some 1) (QString ''Bogus''))
   \<and> fst (snd (fromVariant sampleEnv sampleHeap (Some 1) (QString ''Bogus''))) = sampleHeap
   \<and> colorFromHex sampleEnv (toString sampleEnv (QString ''red'')) = None
   \<and> \<not> fst (fromVariant sampleEnv sampleHeap (Some 3) (QString ''red''))
   \<and> fst (snd (fromVariant sampleEnv sampleHeap (Some 3) (QString ''red''))) = sampleHeap
   \<and> tr_strUnit (fst (parseQuantity sampleEnv (toString sampleEnv (QString ''12..5'')))) = None
   \<and> \<not> fst (fromVariant sampleEnv sampleHeap (Some 0) (QString ''12..5''))
   \<and> fst (snd (fromVariant sampleEnv sampleHeap (Some 0) (QString ''12..5''))) = sampleHeap
   \<and> convertedValue sampleEnv (sampleHeap 4) (QBool False) = Some (PropertyBool False)
   \<and> accepts sampleEnv (sampleHeap 4) (PropertyBool False)
   \<and> PropertyBool False \<noteq> prop_data (sampleHeap 4)
   \<and> fst (fromVariant sampleEnv sampleHeap (Some 4) (QBool False))
   \<and> fst (snd (fromVariant sampleEnv sampleHeap (Some 4) (QBool False)))
        = sampleHeap(4 := (sampleHeap 4)\<lparr>prop_data := PropertyBool False\<rparr>)
   \<and> fst (snd (fromVariant sampleEnv sampleHeap (Some 4) (QBool False))) \<noteq> sampleHeap"
proof -
  have split: "fromVariant env h p v
      = (fst (fromVariant env h p v), fst (snd (fromVariant env h p v)),
         snd (snd (fromVariant env h p v)))" for env h p v
    by simp
  note n = fromVariant_no_partial_write [OF split [of sampleEnv sampleHeap None "QBool False"]]
  note e = fromVariant_no_partial_write [OF split [of sampleEnv sampleHeap "Some 1" "QString ''Bogus''"]]
  note c = fromVariant_no_partial_write [OF split [of sampleEnv sampleHeap "Some 3" "QString ''red''"]]
  note q = fromVariant_no_partial_write [OF split [of sampleEnv sampleHeap "Some 0" "QString ''12..5''"]]
  note b = fromVariant_no_partial_write [OF split [of sampleEnv sampleHeap "Some 4" "QBool False"]]
  have he: "findItem [\<lparr>item_value = 0, item_name = ''Binary''\<rparr>, \<lparr>item_value = 1, item_name = ''Ascii''\<rparr>]
        (toByteArray sampleEnv (QString ''Bogus'')) = None"
    by (simp add: findItem_def sampleEnv_def)
  have hc: "colorFromHex sampleEnv (toString sampleEnv (QString ''red'')) = None"
    by (simp add: sampleEnv_def)
  have hq: "tr_strUnit (fst (parseQuantity sampleEnv (toString sampleEnv (QString ''12..5'')))) = None"
    by (simp add: sampleEnv_def)
  have cv: "convertedValue sampleEnv (sampleHeap 4) (QBool False) = Some (PropertyBool False)"
    by (simp add: convertedValue_def sampleHeap_data sampleEnv_def)
  have ac: "accepts sampleEnv (sampleHeap 4) (PropertyBool False)"
    by (simp add: sampleEnv_def)
  have ne: "PropertyBool False \<noteq> prop_data (sampleHeap 4)"
    by (simp add: sampleHeap_data)
  have 1: "\<not> fst (fromVariant sampleEnv sampleHeap None (QBool False))"
      "fst (snd (fromVariant sampleEnv sampleHeap None (QBool False))) = sampleHeap"
    using n by blast+
  have 2: "\<not> fst (fromVariant sampleEnv sampleHeap (Some 1) (QString ''Bogus''))"
      "fst (snd (fromVariant sampleEnv sampleHeap (Some 1) (QString ''Bogus''))) = sampleHeap"
    using e he sampleHeap_data(2) by blast+
  have 3: "\<not> fst (fromVariant sampleEnv sampleHeap (Some 3) (QString ''red''))"
      "fst (snd (fromVariant sampleEnv sampleHeap (Some 3) (QString ''red''))) = sampleHeap"
    using c hc sampleHeap_data(4) by blast+
  have 4: "\<not> fst (fromVariant sampleEnv sampleHeap (Some 0) (QString ''12..5''))"
      "fst (snd (fromVariant sampleEnv sampleHeap (Some 0) (QString ''12..5''))) = sampleHeap"
    using q hq sampleHeap_data(1) by blast+
  have 5: "fst (fromVariant sampleEnv sampleHeap (Some 4) (QBool False))"
    using b cv ac by blast
  from b 5 obtain a v where av: "Some 4 = Some a"
      "convertedValue sampleEnv (sampleHeap a) (QBool False) = Some v"
      "fst (snd (fromVariant sampleEnv sampleHeap (Some 4) (QBool False)))
         = sampleHeap(a := (sampleHeap a)\<lparr>prop_data := v\<rparr>)"
    by blast
  then have 6: "fst (snd (fromVariant sampleEnv sampleHeap (Some 4) (QBool False)))
        = sampleHeap(4 := (sampleHeap 4)\<lparr>prop_data := PropertyBool False\<rparr>)"
    using cv by auto
  have 7: "fst (snd (fromVariant sampleEnv sampleHeap (Some 4) (QBool False))) \<noteq> sampleHeap"
    using b cv ac ne by blast
  from 1 he 2 hc 3 hq 4 cv ac ne 5 6 7 show ?thesis by simp
qed

theorem fromVariant_same_value_counterexample:
  "prop_data (sampleHeap 4) = PropertyBool True
   \<and> toBool sampleEnv (QBool True) = True
   \<and> fromVariant sampleEnv sampleHeap (Some 4) (QBool True) = (True, sampleHeap, [])"
proof -
  have "sampleHeap(4 := (sampleHeap 4)\<lparr>prop_data := PropertyBool True\<rparr>) = sampleHeap"
    by (simp add: heap_update_same sampleHeap_data)
  then show ?thesis
    by (simp add: fromVariant_def sampleHeap_data returnSetValue_def setValue_def sampleEnv_def)
qed

text \<open>
  C2. For a valid identifier \<open>g\<close> and any registry, \<open>addGroup\<close> returns, and a second
  call returns the same index and leaves the registry as the first call left it. If a
  group with identifier \<open>g\<close> exists, the first call changes nothing and returns the
  position of the first such group; otherwise it appends one group with identifier \<open>g\<close>
  holding exactly one section, marked default, and returns its position.
\<close>

theorem addGroup_idempotent:
  assumes "isValidIdentifier g"
  shows "\<exists>d1 i. addGroup d g = Inr (d1, i) \<and> addGroup d1 g = Inr (d1, i)
           \<and> 0 \<le> i \<and> i < int (length (m_vecGroup d1))
           \<and> key (grp_identifier (m_vecGroup d1 ! nat i)) = g
           \<and> (if g \<in> set (map (\<lambda>x. key (grp_identifier x)) (m_vecGroup d))
               then d1 = d \<and> (\<forall>j < nat i. key (grp_identifier (m_vecGroup d ! j)) \<noteq> g)
               else i = int (length (m_vecGroup d))
                  \<and> d1 = d\<lparr>m_vecGroup := m_vecGroup d @
                        [\<lparr>grp_identifier = \<lparr>trContext = [], key = g\<rparr>, grp_overridenTitle = [],
                          vecSection = [\<lparr>sec_identifier = \<lparr>trContext = [], key = []\<rparr>,
                                         sec_overridenTitle = [], isDefault = True,
                                         vecSetting = []\<rparr>]\<rparr>]\<rparr>)"
proof (cases "findGroup (m_vecGroup d) g")
  case None
  let ?grp = "\<lparr>grp_identifier = \<lparr>trContext = [], key = g\<rparr>, grp_overridenTitle = [],
                vecSection = [\<lparr>sec_identifier = \<lparr>trContext = [], key = []\<rparr>,
                               sec_overridenTitle = [], isDefault = True, vecSetting = []\<rparr>]\<rparr>"
  let ?d1 = "d\<lparr>m_vecGroup := m_vecGroup d @ [?grp]\<rparr>"
  have first: "addGroup d g = Inr (?d1, int (length (m_vecGroup d)))"
    using assms None by (simp add: addGroup_def emptyGroup_def emptySection_def emptyTextId_def)
  have "findGroup (m_vecGroup ?d1) g = Some (int (length (m_vecGroup d)))"
    using findGroup_append_new [OF None, of ?grp] by simp
  then have second: "addGroup ?d1 g = Inr (?d1, int (length (m_vecGroup d)))"
    using assms by (simp add: addGroup_def)
  have notin: "g \<notin> set (map (\<lambda>x. key (grp_identifier x)) (m_vecGroup d))"
    using None by (simp add: findGroup_None)
  show ?thesis using first second notin by (intro exI [of _ ?d1] exI [of _ "int (length (m_vecGroup d))"]) simp
next
  case (Some i)
  have first: "addGroup d g = Inr (d, i)"
    using assms Some by (simp add: addGroup_def)
  have isin: "g \<in> set (map (\<lambda>x. key (grp_identifier x)) (m_vecGroup d))"
    using Some findGroup_None [of "m_vecGroup d" g] by auto
  show ?thesis using first isin findGroup_Some [OF Some]
    by (intro exI [of _ d] exI [of _ i]) simp
qed

theorem addGroup_idempotent_witness:
  "isValidIdentifier ''Export''
   \<and> addGroup (initPrivate :: nat Private) ''Export'' = Inr (regA, 0)
   \<and> addGroup regA ''Export'' = Inr (regA, 0)"
proof -
  have v: "isValidIdentifier ''Export''"
    by (simp add: isValidIdentifier_def simplified_def ascii_isspace_def)
  have a: "addGroup (initPrivate :: nat Private) ''Export'' = Inr (regA, 0)"
    using v by (simp add: addGroup_def initPrivate_def regA_def newGroup_def emptyGroup_def
                  emptySection_def emptyTextId_def)
  from addGroup_idempotent [OF v, of "initPrivate :: nat Private"] a
  have "addGroup regA ''Export'' = Inr (regA, 0)" by auto
  with v a show ?thesis by simp
qed

text \<open>
  C3. For a quantity property and a variant whose text \<open>parseQuantity\<close> gives a unit
  that is not \<open>Unit::None\<close> and differs from the unit of the property, \<open>fromVariant\<close>
  returns false, logs a diagnostic and leaves every property as it was, the value of the
  quantity included; when the text did parse, the diagnostic is the unit mismatch.
\<close>

theorem fromVariant_unit_mismatch:
  assumes "prop_data (h a) = BasePropertyQuantity u x"
    and "parseQuantity env (toString env variant) = (trRes, unit)"
    and "unit \<noteq> UnitNone" and "unit \<noteq> u"
  shows "\<exists>msgs. fromVariant env h (Some a) variant = (False, h, msgs) \<and> msgs \<noteq> []
           \<and> prop_data (h a) = BasePropertyQuantity u x
           \<and> (tr_strUnit trRes \<noteq> None \<and> \<not> qFuzzyIsNull (tr_factor trRes) \<longrightarrow>
                msgs = [fnError (h a) (''fromVariant() unit mismatch with quantity string ''
                                         @ quoted (toString env variant))])"
proof (cases "tr_strUnit trRes = None \<or> qFuzzyIsNull (tr_factor trRes)")
  case True
  from fromVariant_quantity_unparsable [of h a u x env variant trRes unit] assms(1,2) True
  show ?thesis by auto
next
  case False
  then have "tr_strUnit trRes \<noteq> None" "\<not> qFuzzyIsNull (tr_factor trRes)" by auto
  with fromVariant_quantity_mismatch [of h a u x env variant trRes unit] assms
  show ?thesis by auto
qed

theorem fromVariant_unit_mismatch_witness:
  "prop_data (sampleHeap 0) = BasePropertyQuantity Length (254 / 10)
   \<and> parseQuantity sampleEnv (toString sampleEnv (QString ''1rad''))
       = (\<lparr>tr_value = 1, tr_factor = 1, tr_strUnit = Some ''rad''\<rparr>, Angle)
   \<and> Angle \<noteq> UnitNone \<and> Angle \<noteq> Length
   \<and> fromVariant sampleEnv sampleHeap (Some 0) (QString ''1rad'')
       = (False, sampleHeap,
          [fnError (sampleHeap 0) (''fromVariant() unit mismatch with quantity string ''
                                     @ quoted (toString sampleEnv (QString ''1rad'')))])"
proof -
  have p: "parseQuantity sampleEnv (toString sampleEnv (QString ''1rad''))
       = (\<lparr>tr_value = 1, tr_factor = 1, tr_strUnit = Some ''rad''\<rparr>, Angle)"
    by (simp add: sampleEnv_def)
  have f: "tr_strUnit \<lparr>tr_value = 1, tr_factor = 1, tr_strUnit = Some ''rad''\<rparr> \<noteq> None
           \<and> \<not> qFuzzyIsNull (tr_factor \<lparr>tr_value = 1, tr_factor = 1, tr_strUnit = Some ''rad''\<rparr>)"
    by (simp add: qFuzzyIsNull_def)
  from fromVariant_unit_mismatch [of sampleHeap 0 Length "254 / 10" sampleEnv "QString ''1rad''"
         "\<lparr>tr_value = 1, tr_factor = 1, tr_strUnit = Some ''rad''\<rparr>" Angle]
       sampleHeap_data(1) p f
  have "fromVariant sampleEnv sampleHeap (Some 0) (QString ''1rad'')
       = (False, sampleHeap,
          [fnError (sampleHeap 0) (''fromVariant() unit mismatch with quantity string ''
                                     @ quoted (toString sampleEnv (QString ''1rad'')))])"
    by auto
  with p sampleHeap_data(1) show ?thesis by simp
qed




text \<open>
  C5. \<open>saveAs\<close> does write at the path of a setting whose kind has no handler.
  What holds: for a property of kind \<^verbatim>\<open>PropertyCheckState\<close>, \<^verbatim>\<open>PropertyOccPnt\<close> or
  \<^verbatim>\<open>PropertyOccTrsf\<close>, \<open>toVariant\<close> logs that it is not implemented for the kind and
  returns the invalid variant; the loop body of \<open>saveAs\<close> stores that invalid variant at
  the path of the setting; and after a pass of \<open>saveAs\<close> that returns, the path of every
  such setting that is not excluded is a key of the store and the diagnostic is in the log.
\<close>

theorem saveAs_unsupported_kind:
  assumes "unsupportedKind (prop_data (h a)) = Some kind"
  shows "toVariant env (h a) = Inr (Invalid, [''toVariant() not yet implemented for '' @ kind])
     \<and> (\<not> isExcluded fnExclude h a \<longrightarrow>
          saveSetting env h fnExclude sp \<lparr>property = Some a\<rparr> (t, msgs)
            = Inr (t(settingPath h sp a \<mapsto> Invalid),
                   msgs @ [''toVariant() not yet implemented for '' @ kind]))
     \<and> (saveAs d env h fnExclude (Some t) = Inr (Some t1, msgs1)
          \<and> (sp, Some a) \<in> set (allSettings d) \<and> \<not> isExcluded fnExclude h a
        \<longrightarrow> settingPath h sp a \<in> dom t1
            \<and> (''toVariant() not yet implemented for '' @ kind) \<in> set msgs1)"
proof (intro conjI impI)
  note tv = toVariant_unsupported [OF assms, of env]
  show "toVariant env (h a) = Inr (Invalid, [''toVariant() not yet implemented for '' @ kind])"
    by (rule tv)
  show "saveSetting env h fnExclude sp \<lparr>property = Some a\<rparr> (t, msgs)
          = Inr (t(settingPath h sp a \<mapsto> Invalid),
                 msgs @ [''toVariant() not yet implemented for '' @ kind])"
    if "\<not> isExcluded fnExclude h a"
    using that tv
    by (cases fnExclude)
       (simp_all add: saveSetting_def excluded_def isExcluded_def settingPath_def)
  assume a: "saveAs d env h fnExclude (Some t) = Inr (Some t1, msgs1)
          \<and> (sp, Some a) \<in> set (allSettings d) \<and> \<not> isExcluded fnExclude h a"
  then have "saveFlat env h fnExclude (allSettings d) (t, []) = Inr (t1, msgs1)"
    by (auto simp: saveAs_flat split: sum.splits)
  from saveFlat_written [OF this, of sp a] a tv
  show "settingPath h sp a \<in> dom t1"
    and "(''toVariant() not yet implemented for '' @ kind) \<in> set msgs1"
    by auto
qed

theorem saveAs_unsupported_kind_witness:
  "unsupportedKind (prop_data (sampleHeap 2)) = Some ''PropertyCheckState''
   \<and> \<not> isExcluded None sampleHeap 2
   \<and> saveSetting sampleEnv sampleHeap None ''Export/'' \<lparr>property = Some 2\<rparr> (Map.empty, [])
       = Inr (Map.empty(''Export//state'' \<mapsto> Invalid),
              [''toVariant() not yet implemented for PropertyCheckState''])
   \<and> saveAs (exportRegistry [Some 2]) sampleEnv sampleHeap None (Some Map.empty)
       = Inr (Some (Map.empty(''Export//state'' \<mapsto> Invalid)),
              [''toVariant() not yet implemented for PropertyCheckState''])
   \<and> (''Export/'', Some 2) \<in> set (allSettings (exportRegistry [Some 2]))
   \<and> ''Export//state'' \<in> dom (Map.empty(''Export//state'' \<mapsto> Invalid))"
proof -
  have u: "unsupportedKind (prop_data (sampleHeap 2)) = Some ''PropertyCheckState''"
    by (simp add: unsupportedKind_def sampleHeap_data)
  have e: "\<not> isExcluded None sampleHeap 2" by (simp add: isExcluded_def)
  have m: "(''Export/'', Some 2) \<in> set (allSettings (exportRegistry [Some 2]))"
    by (simp add: allSettings_def settingsOf_def groupSettings_def sectionSettings_def
          sectionPath_def exportRegistry_def)
  have p: "settingPath sampleHeap ''Export/'' 2 = ''Export//state''"
    by (simp add: settingPath_def sampleHeap_key)
  note t = saveAs_unsupported_kind [of sampleHeap 2 "''PropertyCheckState''" sampleEnv None
             "''Export/''" Map.empty "[]" "exportRegistry [Some 2]"
             "Map.empty(''Export//state'' \<mapsto> Invalid)"
             "[''toVariant() not yet implemented for PropertyCheckState'']", OF u]
  have "saveSetting sampleEnv sampleHeap None ''Export/'' \<lparr>property = Some 2\<rparr> (Map.empty, [])
       = Inr (Map.empty(''Export//state'' \<mapsto> Invalid),
              [''toVariant() not yet implemented for PropertyCheckState''])"
    using t e p by simp
  moreover have "''Export//state'' \<in> dom (Map.empty(''Export//state'' \<mapsto> Invalid))"
    using t saveAs_sample_state m e p by simp
  ultimately show ?thesis using u e m saveAs_sample_state by simp
qed

theorem saveAs_unsupported_kind_counterexample:
  "prop_data (sampleHeap 2) = PropertyCheckState Checked
   \<and> (Map.empty :: QSettings) ''Export//state'' = None
   \<and> saveAs (exportRegistry [Some 2]) sampleEnv sampleHeap None (Some Map.empty)
       = Inr (Some (Map.empty(''Export//state'' \<mapsto> Invalid)),
              [''toVariant() not yet implemented for PropertyCheckState''])
   \<and> (Map.empty(''Export//state'' \<mapsto> Invalid)) ''Export//state'' = Some Invalid"
  using saveAs_sample_state by (simp add: sampleHeap_data)

text \<open>
  C6. The group that \<open>addGroup\<close> creates has a section at position 0 marked default.
  \<open>addSetting\<close> under a group returns for every valid group index, adds the setting to
  section 0 of that group and leaves section 0 marked default; when the first section is
  marked default the setting is appended to it and the sections of the group are otherwise
  as they were. Every operation that changes the tree (\<open>addGroup\<close>, \<open>addSection\<close>, both
  forms of \<open>addSetting\<close>) keeps a default section at position 0 of every group that had
  one, and in every registry built from the empty one by calls of the member functions
  each group has a first section and it is marked default. So the case of a first section
  that is not marked default does not arise in such a registry; for that case the braces
  of \<^verbatim>\<open>insert(begin(), {})\<close> are an empty initializer list, no section is inserted, and
  \<open>addSetting\<close> marks the section that is first (lemma \<open>addSetting_group_shape\<close>).
\<close>

theorem default_section_first:
  "(addGroup d g = Inr (d1, i) \<and> findGroup (m_vecGroup d) g = None
      \<longrightarrow> isDefaultGroupSection d1 \<lparr>si_group = i, si_get = 0\<rparr> = Inr True)
   \<and> (0 \<le> gi \<and> gi < int (length (m_vecGroup d))
      \<longrightarrow> (\<exists>d2 idx. addSetting_group d p gi = Inr (d2, idx)))
   \<and> (addSetting_group d p gi = Inr (d2, idx)
      \<longrightarrow> isDefaultGroupSection d2 \<lparr>si_group = gi, si_get = 0\<rparr> = Inr True
          \<and> sti_section idx = \<lparr>si_group = gi, si_get = 0\<rparr>)
   \<and> (addSetting_group d p gi = Inr (d2, idx) \<and> group d gi = Inr g0
        \<and> vecSection g0 \<noteq> [] \<and> isDefault (hd (vecSection g0))
      \<longrightarrow> group d2 gi = Inr (g0\<lparr>vecSection :=
            (hd (vecSection g0))\<lparr>vecSetting := vecSetting (hd (vecSection g0))
                                                  @ [\<lparr>property = p\<rparr>]\<rparr>
              # tl (vecSection g0)\<rparr>))
   \<and> (defaultFirst d \<and> addGroup d g = Inr (d1, i) \<longrightarrow> defaultFirst d1)
   \<and> (defaultFirst d \<and> addSetting_group d p gi = Inr (d2, idx) \<longrightarrow> defaultFirst d2)
   \<and> (defaultFirst d \<and> addSection d gi ident = Inr (d3, si) \<longrightarrow> defaultFirst d3)
   \<and> (defaultFirst d \<and> addSetting d p si' = Inr (d4, idx') \<longrightarrow> defaultFirst d4)
   \<and> (run initPrivate calls = Inr d \<longrightarrow> defaultFirst d)
   \<and> (run initPrivate calls = Inr d \<and> group d gi = Inr g0
      \<longrightarrow> vecSection g0 \<noteq> [] \<and> isDefault (hd (vecSection g0)))"
proof (intro conjI impI)
  assume a: "addGroup d g = Inr (d1, i) \<and> findGroup (m_vecGroup d) g = None"
  with addGroup_Inr [of d g d1 i] have
    "i = int (length (m_vecGroup d))" "d1 = d\<lparr>m_vecGroup := m_vecGroup d @ [newGroup g]\<rparr>"
    by auto
  then show "isDefaultGroupSection d1 \<lparr>si_group = i, si_get = 0\<rparr> = Inr True"
    by (intro isDefaultGroupSection_szd) (simp_all add: szd_newGroup)
next
  assume "0 \<le> gi \<and> gi < int (length (m_vecGroup d))"
  then show "\<exists>d2 idx. addSetting_group d p gi = Inr (d2, idx)"
    using addSetting_group_total by blast
next
  assume a: "addSetting_group d p gi = Inr (d2, idx)"
  from szd_addSetting_group [OF a] obtain g1 where
    g1: "m_vecGroup d2 = (m_vecGroup d)[nat gi := g1]" "0 \<le> gi" "nat gi < length (m_vecGroup d)"
        "sectionZeroDefault g1" "sti_section idx = \<lparr>si_group = gi, si_get = 0\<rparr>"
    by auto
  show "isDefaultGroupSection d2 \<lparr>si_group = gi, si_get = 0\<rparr> = Inr True"
    using g1 by (intro isDefaultGroupSection_szd) simp_all
  show "sti_section idx = \<lparr>si_group = gi, si_get = 0\<rparr>" by (rule g1(5))
next
  assume a: "addSetting_group d p gi = Inr (d2, idx) \<and> group d gi = Inr g0
        \<and> vecSection g0 \<noteq> [] \<and> isDefault (hd (vecSection g0))"
  then have g0: "g0 = m_vecGroup d ! nat gi" by (auto simp: group_def vec_at_Inr)
  have w: "withDefaultSection g0 = vecSection g0"
    using a by (simp add: withDefaultSection_def)
  have "(hd (vecSection g0))\<lparr>isDefault := True\<rparr> = hd (vecSection g0)" using a by simp
  with a addSetting_group_shape [of d p gi d2 idx]
  show "group d2 gi = Inr (g0\<lparr>vecSection :=
            (hd (vecSection g0))\<lparr>vecSetting := vecSetting (hd (vecSection g0))
                                                  @ [\<lparr>property = p\<rparr>]\<rparr>
              # tl (vecSection g0)\<rparr>)"
    unfolding g0 [symmetric] w by (auto simp: group_def vec_at_def)
next
  assume "run initPrivate calls = Inr d"
  then show "defaultFirst d" by (rule defaultFirst_built)
next
  assume a: "run initPrivate calls = Inr d \<and> group d gi = Inr g0"
  then have u: "unnamedDefault g0" using built_group by blast
  from u show "vecSection g0 \<noteq> []" by (simp add: unnamedDefault_iff)
  from u show "isDefault (hd (vecSection g0))" by (simp add: unnamedDefault_iff)
qed (auto intro: defaultFirst_addGroup defaultFirst_addSetting_group defaultFirst_addSection
       defaultFirst_addSetting)

theorem default_section_first_witness:
  "addGroup (initPrivate :: nat Private) ''Export'' = Inr (regA, 0)
   \<and> findGroup (m_vecGroup (initPrivate :: nat Private)) ''Export'' = None
   \<and> isDefaultGroupSection regA \<lparr>si_group = 0, si_get = 0\<rparr> = Inr True
   \<and> addSetting_group regA (Some 0) 0
        = Inr (regB, \<lparr>sti_section = \<lparr>si_group = 0, si_get = 0\<rparr>, sti_get = 0\<rparr>)
   \<and> isDefaultGroupSection regB \<lparr>si_group = 0, si_get = 0\<rparr> = Inr True
   \<and> defaultFirst (initPrivate :: nat Private) \<and> defaultFirst regA \<and> defaultFirst regB
   \<and> group regA 0 = Inr (newGroup ''Export'')
   \<and> vecSection (newGroup ''Export'') \<noteq> [] \<and> isDefault (hd (vecSection (newGroup ''Export'')))
   \<and> group regB 0 = Inr ((newGroup ''Export'')\<lparr>vecSection :=
        (hd (vecSection (newGroup ''Export'')))\<lparr>vecSetting := [\<lparr>property = Some 0\<rparr>]\<rparr>
          # tl (vecSection (newGroup ''Export''))\<rparr>)
   \<and> run (initPrivate :: nat Private) [AddGroup ''Export'', AddSettingGroup (Some 0) 0] = Inr regB
   \<and> (\<exists>d3 si. addSection regA 0 ''STL'' = Inr (d3, si) \<and> defaultFirst d3)
   \<and> (\<exists>d4 idx. addSetting regA (Some 0) \<lparr>si_group = 0, si_get = 0\<rparr> = Inr (d4, idx)
         \<and> defaultFirst d4)"
proof -
  let ?i = "initPrivate :: nat Private"
  let ?ix = "\<lparr>sti_section = \<lparr>si_group = 0, si_get = 0\<rparr>, sti_get = 0\<rparr>"
  let ?calls = "[AddGroup ''Export'', AddSettingGroup (Some 0) 0] :: nat Call list"
  have f: "findGroup (m_vecGroup ?i) ''Export'' = None" by (simp add: initPrivate_def)
  have i: "defaultFirst ?i" by (simp add: defaultFirst_def initPrivate_def)
  have r: "run ?i ?calls = Inr regB"
    by (simp add: registryAfter_def addGroup_Export addSetting_regA)
  have o: "group regA 0 = Inr (newGroup ''Export'')"
    by (simp add: group_def vec_at_def regA_def)
  note t = default_section_first [of ?i "''Export''" regA 0 0 "Some 0" regB ?ix]
  note u = default_section_first [of regA "''Export''" regA 0 0 "Some 0" regB ?ix
             "newGroup ''Export''"]
  note b = default_section_first [where d = regB and calls = ?calls]
  have c: "isDefaultGroupSection regA \<lparr>si_group = 0, si_get = 0\<rparr> = Inr True"
    and da: "defaultFirst regA"
    using t addGroup_Export f i by blast+
  have cb: "isDefaultGroupSection regB \<lparr>si_group = 0, si_get = 0\<rparr> = Inr True"
    using u addSetting_regA by blast
  have db: "defaultFirst regB" using b r by blast
  have n: "vecSection (newGroup ''Export'') \<noteq> []"
    "isDefault (hd (vecSection (newGroup ''Export'')))"
    by (simp_all add: newGroup_def)
  have gb: "group regB 0 = Inr ((newGroup ''Export'')\<lparr>vecSection :=
        (hd (vecSection (newGroup ''Export'')))\<lparr>vecSetting :=
            vecSetting (hd (vecSection (newGroup ''Export''))) @ [\<lparr>property = Some 0\<rparr>]\<rparr>
          # tl (vecSection (newGroup ''Export''))\<rparr>)"
    using u addSetting_regA o n by blast
  have gb': "group regB 0 = Inr ((newGroup ''Export'')\<lparr>vecSection :=
        (hd (vecSection (newGroup ''Export'')))\<lparr>vecSetting := [\<lparr>property = Some 0\<rparr>]\<rparr>
          # tl (vecSection (newGroup ''Export''))\<rparr>)"
    unfolding gb by (simp add: newGroup_def)
  have "isValidIdentifier ''STL''"
    by (simp add: isValidIdentifier_def simplified_def ascii_isspace_def)
  then obtain d3 si where a3: "addSection regA 0 ''STL'' = Inr (d3, si)"
    by (simp add: addSection_def group_def vec_at_def regA_def)
  from default_section_first [of regA _ _ _ 0 _ _ _ _ "''STL''" d3 si] a3 da
  have s3: "defaultFirst d3" by blast
  obtain d4 idx4 where a4: "addSetting regA (Some 0) \<lparr>si_group = 0, si_get = 0\<rparr> = Inr (d4, idx4)"
    by (simp add: addSetting_def modifySection_def modifyGroup_def section_at_def group_def
          vec_at_def regA_def newGroup_def)
  from default_section_first [of regA _ _ _ _ "Some 0" _ _ _ _ _ _ "\<lparr>si_group = 0, si_get = 0\<rparr>" d4 idx4]
    a4 da
  have s4: "defaultFirst d4" by blast
  from addGroup_Export f c addSetting_regA cb i da db o n gb' r a3 s3 a4 s4
  show ?thesis by blast
qed

text \<open>
  C7. \<open>addSection\<close> does not look for the identifier among the sections of the group
  (the source marks the check as still to do): adding the section \<open>STL\<close> twice under the
  group \<open>Export\<close> gives two sections, at positions 1 and 2, with the same identifier.
  Group identifiers do stay distinct (\<open>groupKeys_addGroup\<close>, \<open>groupKeys_addSection\<close>).
\<close>

theorem addSection_duplicate_identifier:
  "\<exists>d1 d2. addSection regA 0 ''STL'' = Inr (d1, \<lparr>si_group = 0, si_get = 1\<rparr>)
     \<and> addSection d1 0 ''STL'' = Inr (d2, \<lparr>si_group = 0, si_get = 2\<rparr>)
     \<and> sectionIdentifier d2 \<lparr>si_group = 0, si_get = 1\<rparr> = Inr ''STL''
     \<and> sectionIdentifier d2 \<lparr>si_group = 0, si_get = 2\<rparr> = Inr ''STL''"
proof -
  have v: "isValidIdentifier ''STL''"
    by (simp add: isValidIdentifier_def simplified_def ascii_isspace_def)
  let ?sec = "emptySection\<lparr>sec_identifier := emptyTextId\<lparr>key := ''STL''\<rparr>\<rparr>"
  let ?d1 = "regA\<lparr>m_vecGroup := [(newGroup ''Export'')\<lparr>vecSection :=
                vecSection (newGroup ''Export'') @ [?sec]\<rparr>]\<rparr>"
  let ?d2 = "regA\<lparr>m_vecGroup := [(newGroup ''Export'')\<lparr>vecSection :=
                vecSection (newGroup ''Export'') @ [?sec, ?sec]\<rparr>]\<rparr>"
  have a: "addSection regA 0 ''STL'' = Inr (?d1, \<lparr>si_group = 0, si_get = 1\<rparr>)"
    using v by (simp add: addSection_def group_def vec_at_def regA_def newGroup_def)
  have b: "addSection ?d1 0 ''STL'' = Inr (?d2, \<lparr>si_group = 0, si_get = 2\<rparr>)"
    using v by (simp add: addSection_def group_def vec_at_def regA_def newGroup_def)
  have c: "sectionIdentifier ?d2 \<lparr>si_group = 0, si_get = 1\<rparr> = Inr ''STL''"
    "sectionIdentifier ?d2 \<lparr>si_group = 0, si_get = 2\<rparr> = Inr ''STL''"
    by (simp_all add: sectionIdentifier_def section_at_def group_def vec_at_def regA_def
          newGroup_def emptySection_def emptyTextId_def)
  from a b c show ?thesis by blast
qed

text \<open>
  C8. The store at the path of a setting excluded from \<open>saveAs\<close> can be written during
  the save, by a setting that is not excluded and has the same path: two properties with
  one key in a section, or identifiers with a slash, give two settings one path. What
  holds: a pass of \<open>saveAs\<close> with an exclude predicate is the pass without a predicate
  over the registry without the excluded settings: nothing is written for an excluded
  setting and every other setting is processed in place. So the store at a path is as
  it was before the save when every setting with that path is excluded. A property that
  the predicate of \<open>loadFrom\<close> excludes before the load has its state unchanged after
  it, whatever the store holds. For a predicate that does not look at the value of a
  property, the load is the load without a predicate over the registry without the
  excluded settings; \<open>loadFrom\<close> returns whenever no setting holds a null pointer.
\<close>

theorem exclude_predicates:
  "saveAs d env h fnExclude target = saveAs (withoutExcluded fnExclude h d) env h None target
   \<and> (saveAs d env h fnExclude (Some t) = Inr (Some t1, msgs)
        \<and> (\<forall>x \<in> set (allSettings d). \<forall>a. snd x = Some a \<and> settingPath h (fst x) a = P
               \<longrightarrow> isExcluded fnExclude h a)
      \<longrightarrow> t1 P = t P)
   \<and> (loadFrom d env source (Some f) h = Inr (h1, msgs1) \<and> f a (h a) \<longrightarrow> h1 a = h a)
   \<and> (loadFrom d env source (Some f) h = Inr r \<and> (\<forall>b p v. f b (p\<lparr>prop_data := v\<rparr>) = f b p)
      \<longrightarrow> loadFrom (withoutExcluded (Some f) h d) env source None h = Inr r)
   \<and> (list_all (\<lambda>x. snd x \<noteq> None) (allSettings d)
      \<longrightarrow> (\<exists>r. loadFrom d env source fnExclude h = Inr r))"
proof (intro conjI impI)
  show "saveAs d env h fnExclude target = saveAs (withoutExcluded fnExclude h d) env h None target"
    by (rule saveAs_withoutExcluded)
next
  assume a: "saveAs d env h fnExclude (Some t) = Inr (Some t1, msgs)
        \<and> (\<forall>x \<in> set (allSettings d). \<forall>a. snd x = Some a \<and> settingPath h (fst x) a = P
               \<longrightarrow> isExcluded fnExclude h a)"
  then have "saveFlat env h fnExclude (allSettings d) (t, []) = Inr (t1, msgs)"
    by (auto simp: saveAs_flat split: sum.splits)
  from saveFlat_unchanged [OF this] a show "t1 P = t P" by blast
next
  assume "loadFrom d env source (Some f) h = Inr (h1, msgs1) \<and> f a (h a)"
  then show "h1 a = h a"
    using loadFlat_excluded_unchanged [of env source f "allSettings d" h "[]" h1 msgs1 a]
    by (simp add: loadFrom_flat)
next
  assume "loadFrom d env source (Some f) h = Inr r \<and> (\<forall>b p v. f b (p\<lparr>prop_data := v\<rparr>) = f b p)"
  then show "loadFrom (withoutExcluded (Some f) h d) env source None h = Inr r"
    using loadFlat_filter [of env source f "allSettings d" h "[]" r h]
    by (simp add: loadFrom_flat settingsOf_withoutExcluded)
next
  assume "list_all (\<lambda>x. snd x \<noteq> None) (allSettings d)"
  then show "\<exists>r. loadFrom d env source fnExclude h = Inr r"
    using loadFlat_total [of "allSettings d" env source fnExclude "(h, [])"]
    by (simp add: loadFrom_flat)
qed

theorem exclude_predicates_witness:
  "saveAs (exportRegistry [Some 4, Some 0]) sampleEnv sampleHeap (Some excludeFlag) (Some Map.empty)
     = Inr (Some (Map.empty(''Export//length'' \<mapsto> QString ''25.4mm'')), [])
   \<and> saveAs (exportRegistry [Some 0]) sampleEnv sampleHeap None (Some Map.empty)
     = Inr (Some (Map.empty(''Export//length'' \<mapsto> QString ''25.4mm'')), [])
   \<and> allSettings (exportRegistry [Some 4, Some 0]) = [(''Export/'', Some 4), (''Export/'', Some 0)]
   \<and> isExcluded (Some excludeFlag) sampleHeap 4
   \<and> settingPath sampleHeap ''Export/'' 4 = ''Export//flag''
   \<and> settingPath sampleHeap ''Export/'' 0 \<noteq> ''Export//flag''
   \<and> (Map.empty(''Export//length'' \<mapsto> QString ''25.4mm'')) ''Export//flag''
       = (Map.empty :: QSettings) ''Export//flag''
   \<and> loadFrom (exportRegistry [Some 4, Some 0]) sampleEnv sampleStore (Some excludeFlag) sampleHeap
     = Inr (sampleHeap(0 := (sampleHeap 0)\<lparr>prop_data := BasePropertyQuantity Length 2\<rparr>), [])
   \<and> excludeFlag 4 (sampleHeap 4) \<and> sampleStore ''Export//flag'' = Some (QBool False)
   \<and> (sampleHeap(0 := (sampleHeap 0)\<lparr>prop_data := BasePropertyQuantity Length 2\<rparr>)) 4
       = sampleHeap 4
   \<and> loadFrom (exportRegistry [Some 0]) sampleEnv sampleStore None sampleHeap
     = Inr (sampleHeap(0 := (sampleHeap 0)\<lparr>prop_data := BasePropertyQuantity Length 2\<rparr>), [])
   \<and> list_all (\<lambda>x. snd x \<noteq> None) (allSettings (exportRegistry [Some 4, Some 0]))"
proof -
  let ?d = "exportRegistry [Some 4, Some 0]"
  let ?t1 = "Map.empty(''Export//length'' \<mapsto> QString ''25.4mm'')"
  let ?h1 = "sampleHeap(0 := (sampleHeap 0)\<lparr>prop_data := BasePropertyQuantity Length 2\<rparr>)"
  note t = exclude_predicates [of ?d sampleEnv sampleHeap "Some excludeFlag" "Some Map.empty"
             Map.empty ?t1 "[]" "''Export//flag''" sampleStore excludeFlag ?h1 "[]" 4 "(?h1, [])"]
  have e: "isExcluded (Some excludeFlag) sampleHeap 4" "excludeFlag 4 (sampleHeap 4)"
    by (simp_all add: isExcluded_def excludeFlag_def)
  have p: "settingPath sampleHeap ''Export/'' 4 = ''Export//flag''"
    "settingPath sampleHeap ''Export/'' 0 \<noteq> ''Export//flag''"
    by (simp_all add: settingPath_def sampleHeap_key)
  have st: "\<forall>b p v. excludeFlag b (p\<lparr>prop_data := v\<rparr>) = excludeFlag b p"
    by (simp add: excludeFlag_def)
  have s0: "saveAs (exportRegistry [Some 0]) sampleEnv sampleHeap None (Some Map.empty) = Inr (Some ?t1, [])"
    using t sample_save_excluding by (simp add: sample_withoutExcluded)
  have un: "?t1 ''Export//flag'' = (Map.empty :: QSettings) ''Export//flag''"
    using t sample_save_excluding e p by (simp add: sample_settings)
  have keep: "?h1 4 = sampleHeap 4"
    using t sample_load_excluding e by blast
  have l0: "loadFrom (exportRegistry [Some 0]) sampleEnv sampleStore None sampleHeap = Inr (?h1, [])"
    using t sample_load_excluding st by (simp add: sample_withoutExcluded)
  have "sampleStore ''Export//flag'' = Some (QBool False)" by (simp add: sampleStore_def)
  moreover have "list_all (\<lambda>x. snd x \<noteq> None) (allSettings ?d)"
    by (simp add: sample_settings)
  ultimately show ?thesis
    using sample_save_excluding s0 sample_settings e p un sample_load_excluding keep l0
    by (simp only: simp_thms)
qed

theorem exclude_predicates_counterexample:
  "run (initPrivate :: nat Private)
       [AddGroup ''Export'', AddSettingGroup (Some 4) 0, AddSettingGroup (Some 5) 0]
     = Inr (exportRegistry [Some 4, Some 5])
   \<and> allSettings (exportRegistry [Some 4, Some 5]) = [(''Export/'', Some 4), (''Export/'', Some 5)]
   \<and> excludeFlag 4 (sampleHeap2 4) \<and> \<not> excludeFlag 5 (sampleHeap2 5)
   \<and> settingPath sampleHeap2 ''Export/'' 4 = ''Export//flag''
   \<and> settingPath sampleHeap2 ''Export/'' 5 = ''Export//flag''
   \<and> (Map.empty :: QSettings) ''Export//flag'' = None
   \<and> saveAs (exportRegistry [Some 4, Some 5]) sampleEnv sampleHeap2 (Some excludeFlag)
        (Some Map.empty)
     = Inr (Some (Map.empty(''Export//flag'' \<mapsto> QBool False)), [])
   \<and> (Map.empty(''Export//flag'' \<mapsto> QBool False)) ''Export//flag'' = Some (QBool False)
   \<and> run (initPrivate :: nat Private)
       [AddGroup ''Export'', AddSection 0 ''STL'', AddSection 0 ''STL/ascii'',
        AddSetting (Some 6) \<lparr>si_group = 0, si_get = 1\<rparr>,
        AddSetting (Some 4) \<lparr>si_group = 0, si_get = 2\<rparr>]
     = Inr sectionsRegistry
   \<and> allSettings sectionsRegistry = [(''Export/STL'', Some 6), (''Export/STL/ascii'', Some 4)]
   \<and> \<not> excludeFlag 6 (sampleHeap2 6)
   \<and> settingPath sampleHeap2 ''Export/STL/ascii'' 4 = ''Export/STL/ascii/flag''
   \<and> settingPath sampleHeap2 ''Export/STL'' 6 = ''Export/STL/ascii/flag''
   \<and> (Map.empty :: QSettings) ''Export/STL/ascii/flag'' = None
   \<and> saveAs sectionsRegistry sampleEnv sampleHeap2 (Some excludeFlag) (Some Map.empty)
     = Inr (Some (Map.empty(''Export/STL/ascii/flag'' \<mapsto> QBool False)), [])"
proof -
  have s1: "allSettings (exportRegistry [Some 4, Some 5])
      = [(''Export/'', Some 4), (''Export/'', Some 5)]"
    by (simp add: allSettings_def settingsOf_def groupSettings_def sectionSettings_def
        sectionPath_def exportRegistry_def)
  have s2: "allSettings sectionsRegistry
      = [(''Export/STL'', Some 6), (''Export/STL/ascii'', Some 4)]"
    by (simp add: allSettings_def settingsOf_def groupSettings_def sectionSettings_def
        sectionPath_def sectionsRegistry_def)
  have e: "excludeFlag 4 (sampleHeap2 4)" "\<not> excludeFlag 5 (sampleHeap2 5)"
    "\<not> excludeFlag 6 (sampleHeap2 6)"
    by (simp_all add: excludeFlag_def)
  have p: "settingPath sampleHeap2 ''Export/'' 4 = ''Export//flag''"
    "settingPath sampleHeap2 ''Export/'' 5 = ''Export//flag''"
    "settingPath sampleHeap2 ''Export/STL/ascii'' 4 = ''Export/STL/ascii/flag''"
    "settingPath sampleHeap2 ''Export/STL'' 6 = ''Export/STL/ascii/flag''"
    by (simp_all add: settingPath_def sampleHeap2_at)
  have w1: "saveAs (exportRegistry [Some 4, Some 5]) sampleEnv sampleHeap2 (Some excludeFlag)
        (Some Map.empty)
     = Inr (Some (Map.empty(''Export//flag'' \<mapsto> QBool False)), [])"
    by (simp add: saveAs_def exportRegistry_def saveSetting_def excluded_def sectionPath_def
        excludeFlag_def toVariant_def sampleHeap2_at)
  have w2: "saveAs sectionsRegistry sampleEnv sampleHeap2 (Some excludeFlag) (Some Map.empty)
     = Inr (Some (Map.empty(''Export/STL/ascii/flag'' \<mapsto> QBool False)), [])"
    by (simp add: saveAs_def sectionsRegistry_def saveSetting_def excluded_def sectionPath_def
        excludeFlag_def toVariant_def sampleHeap2_at)
  from run_shared_key s1 e p w1 run_sections s2 w2 show ?thesis by simp
qed

text \<open>
  C9. After any sequence of registrations on a fresh registry, \<open>resetGroup g\<close> invokes
  exactly the non-empty functions registered with group \<open>g\<close> (by \<^verbatim>\<open>GroupIndex\<close> or by a
  \<^verbatim>\<open>SectionIndex\<close> under \<open>g\<close>), once per registration and in registration order, and no
  other; \<open>resetAll\<close> invokes every registered function. A registration by
  \<^verbatim>\<open>GroupIndex\<close> is bound to section 0 of the group: \<open>resetSection\<close> invokes exactly
  the functions bound to its section. On a registry that already holds registrations the
  new calls come after the old ones.
\<close>

theorem resetGroup_exactly_bound:
  "resetGroup (foldl register initPrivate regs) g = callbacksOf g regs
   \<and> resetAll (foldl register initPrivate regs) = List.map_filter callback regs
   \<and> resetSection (foldl register initPrivate regs) i
       = List.map_filter (\<lambda>r. if boundSection r = i then callback r else None) regs
   \<and> si_group (boundSection r) = boundGroup r
   \<and> boundSection (RegGroup g f) = \<lparr>si_group = g, si_get = 0\<rparr>
   \<and> resetGroup (foldl register d regs) g = resetGroup d g @ callbacksOf g regs
   \<and> resetAll (foldl register d regs) = resetAll d @ List.map_filter callback regs"
proof -
  have "resetGroup (initPrivate :: 'a Private) g = []" "resetAll (initPrivate :: 'a Private) = []"
    "resetSection (initPrivate :: 'a Private) i = []"
    by (simp_all add: resetGroup_def resetAll_def resetSection_def initPrivate_def)
  then show ?thesis
    by (simp add: resetGroup_foldl resetAll_foldl resetSection_foldl boundSection_group)
qed

theorem resetGroup_exactly_bound_witness:
  "resetGroup (foldl register initPrivate
      [RegGroup 0 (Some (10::nat)), RegSection \<lparr>si_group = 1, si_get = 0\<rparr> (Some 11),
       RegSection \<lparr>si_group = 0, si_get = 2\<rparr> (Some 12), RegGroup 0 None, RegGroup 1 (Some 10)]) 0
     = [10, 12]
   \<and> resetAll (foldl register initPrivate
      [RegGroup 0 (Some (10::nat)), RegSection \<lparr>si_group = 1, si_get = 0\<rparr> (Some 11),
       RegSection \<lparr>si_group = 0, si_get = 2\<rparr> (Some 12), RegGroup 0 None, RegGroup 1 (Some 10)])
     = [10, 11, 12, 10]
   \<and> resetSection (foldl register initPrivate
      [RegGroup 0 (Some (10::nat)), RegSection \<lparr>si_group = 1, si_get = 0\<rparr> (Some 11),
       RegSection \<lparr>si_group = 0, si_get = 2\<rparr> (Some 12), RegGroup 0 None, RegGroup 1 (Some 10)])
       \<lparr>si_group = 1, si_get = 0\<rparr>
     = [11, 10]"
proof -
  let ?regs = "[RegGroup 0 (Some (10::nat)), RegSection \<lparr>si_group = 1, si_get = 0\<rparr> (Some 11),
       RegSection \<lparr>si_group = 0, si_get = 2\<rparr> (Some 12), RegGroup 0 None, RegGroup 1 (Some 10)]"
  note t = resetGroup_exactly_bound [where regs = ?regs and g = 0 and d = initPrivate
             and i = "\<lparr>si_group = 1, si_get = 0\<rparr>"]
  have a: "resetGroup (foldl register initPrivate ?regs) 0 = callbacksOf 0 ?regs"
    using t by (rule conjunct1)
  have b: "resetAll (foldl register initPrivate ?regs) = List.map_filter callback ?regs"
    using t by blast
  have c: "resetSection (foldl register initPrivate ?regs) \<lparr>si_group = 1, si_get = 0\<rparr>
       = List.map_filter
           (\<lambda>r. if boundSection r = \<lparr>si_group = 1, si_get = 0\<rparr> then callback r else None) ?regs"
    using t by blast
  have "callbacksOf 0 ?regs = [10, 12]" "List.map_filter callback ?regs = [10, 11, 12, 10]"
    "List.map_filter
       (\<lambda>r. if boundSection r = \<lparr>si_group = 1, si_get = 0\<rparr> then callback r else None) ?regs
     = [11, 10]"
    by (simp_all add: callbacksOf_def List.map_filter_simps)
  with a b c show ?thesis by (simp only:)
qed

text \<open>
  C10. With a null target \<open>saveAs\<close> returns at once, for every registry, store of
  properties and exclude predicate: there is no target to write, no line is logged and
  no error is raised, also where the loops would have dereferenced a null property.
\<close>

theorem saveAs_null_target: "saveAs d env h fnExclude None = Inr (None, [])"
  by (simp add: saveAs_def)

end
